theory Spec2Isabelle
  imports Complex_Main "HOL-Library.Word" "HOL-Library.Char_ord" "HOL-Library.List_Lexorder"
begin

section \<open>Go values at the boundary of the bridge\<close>

text \<open>
  A Go \<open>float64\<close>: a finite value (every finite \<open>float64\<close> is a rational number), the two
  infinities, or NaN. The comparisons are Go's: every comparison with NaN is false.
\<close>

datatype float64 = Finite rat | PosInf | NegInf | NaN

fun flt_less :: "float64 \<Rightarrow> float64 \<Rightarrow> bool" where
  "flt_less NaN _ = False"
| "flt_less _ NaN = False"
| "flt_less (Finite a) (Finite b) = (a < b)"
| "flt_less (Finite a) PosInf = True"
| "flt_less (Finite a) NegInf = False"
| "flt_less PosInf _ = False"
| "flt_less NegInf NegInf = False"
| "flt_less NegInf _ = True"

text \<open>
  A \<open>time.Time\<close> is taken as an instant: nanoseconds since the Unix epoch. Its location
  and its monotonic clock reading are not kept. The zero \<open>time.Time\<close> is January 1 of
  year 1, 00:00 UTC.
\<close>

type_synonym gotime = int

definition zero_time :: gotime where
  "zero_time = - 62135596800 * 1000000000"

text \<open>
  Go errors. \<open>BridgeError\<close> is the struct of contracts.go (Code, Message);
  \<open>Errorf p e\<close> is \<open>fmt.Errorf(p + ": %w", e)\<close>, an error that wraps \<open>e\<close>;
  \<open>ErrorString\<close> is an error made by \<open>fmt.Errorf\<close> without a wrapped error, or one
  that a library returns (by its text).
\<close>

datatype error =
    BridgeError string string
  | Errorf string error
  | ErrorString string


text \<open>The error at the end of the \<open>%w\<close> chain (what \<open>errors.As\<close> would reach).\<close>

fun cause :: "error \<Rightarrow> error" where
  "cause (Errorf p e) = cause e"
| "cause e = e"

definition ErrInvalidRequest :: "string \<Rightarrow> error" where
  "ErrInvalidRequest msg = BridgeError ''INVALID_REQUEST'' msg"

definition ErrInvalidResponse :: "string \<Rightarrow> error" where
  "ErrInvalidResponse msg = BridgeError ''INVALID_RESPONSE'' msg"

definition ErrInvalidProgress :: "string \<Rightarrow> error" where
  "ErrInvalidProgress msg = BridgeError ''INVALID_PROGRESS'' msg"

definition ErrModuleNotFound :: "string \<Rightarrow> error" where
  "ErrModuleNotFound msg = BridgeError ''MODULE_NOT_FOUND'' msg"

definition ErrModuleTimeout :: "string \<Rightarrow> error" where
  "ErrModuleTimeout msg = BridgeError ''MODULE_TIMEOUT'' msg"

definition ErrModuleError :: "string \<Rightarrow> error" where
  "ErrModuleError msg = BridgeError ''MODULE_ERROR'' msg"

text \<open>
  A value of Go's \<open>interface{}\<close> as the bridge's maps hold it: nil, a bool, an int, a
  float64, a string, a slice, or a map with string keys. A Go map has no order and each
  key once: it is kept as the list of its entries in the order of their keys, which
  \<open>sorted_members\<close> makes of any list of entries (the first entry of a key counts).
\<close>

datatype goval =
    GNil
  | GBool bool
  | GInt int
  | GFloat float64
  | GString string
  | GSlice "goval list"
  | GMap "(string \<times> goval) list"

definition sorted_members :: "(string \<times> 'a) list \<Rightarrow> (string \<times> 'a) list" where
  "sorted_members kvs =
     map (\<lambda>k. (k, the (map_of kvs k))) (sort (remdups (map fst kvs)))"

section \<open>JSON documents as the decoder sees them\<close>

text \<open>
  The functions of contracts.go that read and write JSON are one-line calls of Go's
  \<open>encoding/json\<close>. The model starts behind that library's scanner: a line of text is
  either not a JSON document (\<open>Malformed\<close>: a syntax error, also the empty line) or the
  document it spells. A number is kept by the form of its literal, since the decoder
  converts the literal itself: \<open>JInt n\<close> is a literal of digits only (with an optional
  minus sign), \<open>JFrac f\<close> a literal with a fraction or an exponent, \<open>f\<close> being what
  \<open>strconv.ParseFloat\<close> returns for it (an infinity when the literal is out of range).
  \<open>JStamp s t\<close> is a string \<open>s\<close> in RFC 3339 form, which \<open>time.Time.UnmarshalJSON\<close>
  reads as the instant \<open>t\<close>; \<open>JString s\<close> is any other string. Members of an object are
  in document order.
\<close>

datatype json =
    JNull
  | JBool bool
  | JInt int
  | JFrac float64
  | JString string
  | JStamp string gotime
  | JArray "json list"
  | JObject "(string \<times> json) list"

datatype line = Malformed | Document json

definition SyntaxError :: error where
  "SyntaxError = ErrorString ''json: syntax error''"

definition UnmarshalTypeError :: error where
  "UnmarshalTypeError = ErrorString ''json: cannot unmarshal value into Go value''"

definition UnsupportedValueError :: error where
  "UnsupportedValueError = ErrorString ''json: unsupported value''"

text \<open>
  The decoder matches an object key with a struct field's name ignoring case: ASCII
  letters, and the two non-ASCII characters that fold to ASCII letters (U+017F to s,
  U+212A to k, here as their UTF-8 bytes). The field names of contracts.go are lower case.
\<close>

fun fold_name :: "string \<Rightarrow> string" where
  "fold_name [] = []"
| "fold_name [c] =
     (if 65 \<le> (of_char c :: nat) \<and> (of_char c :: nat) \<le> 90
      then [char_of (of_char c + (32 :: nat))] else [c])"
| "fold_name (c # d # cs) =
     (if (of_char c :: nat) = 197 \<and> (of_char d :: nat) = 191 then CHR ''s'' # fold_name cs
      else if (of_char c :: nat) = 226 \<and> (of_char d :: nat) = 132 \<and>
              (case cs of [] \<Rightarrow> False | e # _ \<Rightarrow> (of_char e :: nat) = 170)
        then CHR ''k'' # fold_name (tl cs)
      else if 65 \<le> (of_char c :: nat) \<and> (of_char c :: nat) \<le> 90
        then char_of (of_char c + (32 :: nat)) # fold_name (d # cs)
      else c # fold_name (d # cs))"

text \<open>
  Decoding one JSON value into a field of a given Go type. JSON \<open>null\<close> leaves the
  field as it is; a value of the wrong kind is an \<open>UnmarshalTypeError\<close>.
\<close>

fun decode_string :: "json \<Rightarrow> string \<Rightarrow> error + string" where
  "decode_string JNull cur = Inr cur"
| "decode_string (JString s) cur = Inr s"
| "decode_string (JStamp s t) cur = Inr s"
| "decode_string _ cur = Inl UnmarshalTypeError"

fun decode_bool :: "json \<Rightarrow> bool \<Rightarrow> error + bool" where
  "decode_bool JNull cur = Inr cur"
| "decode_bool (JBool b) cur = Inr b"
| "decode_bool _ cur = Inl UnmarshalTypeError"

fun decode_int64 :: "json \<Rightarrow> 64 word \<Rightarrow> error + 64 word" where
  "decode_int64 JNull cur = Inr cur"
| "decode_int64 (JInt n) cur =
     (if - (2 ^ 63) \<le> n \<and> n < 2 ^ 63 then Inr (word_of_int n) else Inl UnmarshalTypeError)"
| "decode_int64 _ cur = Inl UnmarshalTypeError"

text \<open>
  An integer literal read as a \<open>float64\<close>: out of range from \<open>2^1024 - 2^970\<close> on (the
  first magnitude that rounds to infinity). The rounding of integers beyond \<open>2^53\<close> is
  left out: the value is kept exact.
\<close>

definition float64_of_literal :: "json \<Rightarrow> float64 option" where
  "float64_of_literal v =
     (case v of
        JInt n \<Rightarrow> (if \<bar>n\<bar> < 2 ^ 1024 - 2 ^ 970 then Some (Finite (of_int n)) else None)
      | JFrac (Finite r) \<Rightarrow> Some (Finite r)
      | _ \<Rightarrow> None)"

fun decode_float64 :: "json \<Rightarrow> float64 \<Rightarrow> error + float64" where
  "decode_float64 JNull cur = Inr cur"
| "decode_float64 v cur =
     (case float64_of_literal v of Some f \<Rightarrow> Inr f | None \<Rightarrow> Inl UnmarshalTypeError)"

fun decode_time :: "json \<Rightarrow> gotime \<Rightarrow> error + gotime" where
  "decode_time JNull cur = Inr cur"
| "decode_time (JStamp s t) cur = Inr t"
| "decode_time (JString s) cur = Inl (ErrorString ''parsing time: not in RFC 3339 form'')"
| "decode_time _ cur = Inl (ErrorString ''Time.UnmarshalJSON: input is not a JSON string'')"

text \<open>
  Decoding into an \<open>interface{}\<close>: every number becomes a \<open>float64\<close>, an object a
  \<open>map[string]interface{}\<close> (a later member with the same key wins, so the members are
  taken last-first), an array a \<open>[]interface{}\<close>. It fails only on a number out of
  \<open>float64\<close>'s range.
\<close>

primrec numbers_in_range :: "json \<Rightarrow> bool" where
  "numbers_in_range JNull = True"
| "numbers_in_range (JBool b) = True"
| "numbers_in_range (JInt n) = (float64_of_literal (JInt n) \<noteq> None)"
| "numbers_in_range (JFrac f) = (float64_of_literal (JFrac f) \<noteq> None)"
| "numbers_in_range (JString s) = True"
| "numbers_in_range (JStamp s t) = True"
| "numbers_in_range (JArray xs) = list_all numbers_in_range xs"
| "numbers_in_range (JObject kvs) = list_all (pred_prod (\<lambda>k. True) numbers_in_range) kvs"

primrec decode_any :: "json \<Rightarrow> goval" where
  "decode_any JNull = GNil"
| "decode_any (JBool b) = GBool b"
| "decode_any (JInt n) = GFloat (Finite (of_int n))"
| "decode_any (JFrac f) = GFloat f"
| "decode_any (JString s) = GString s"
| "decode_any (JStamp s t) = GString s"
| "decode_any (JArray xs) = GSlice (map decode_any xs)"
| "decode_any (JObject kvs) = GMap (sorted_members (rev (map (map_prod id decode_any) kvs)))"

text \<open>
  Decoding into a \<open>map[string]interface{}\<close> field; \<open>None\<close> is the nil map. An object is
  decoded into the map the field holds, if it holds one.
\<close>

fun decode_map :: "json \<Rightarrow> (string \<times> goval) list option \<Rightarrow> error + (string \<times> goval) list option" where
  "decode_map JNull cur = Inr None"
| "decode_map (JObject kvs) cur =
     (if numbers_in_range (JObject kvs)
      then Inr (Some (sorted_members
             (rev (map (map_prod id decode_any) kvs) @ (case cur of None \<Rightarrow> [] | Some m \<Rightarrow> m))))
      else Inl UnmarshalTypeError)"
| "decode_map _ cur = Inl UnmarshalTypeError"

text \<open>
  Decoding the members of an object into a struct, in document order; the first error
  ends it (\<open>json.Unmarshal\<close> returns an error whenever one member fails, and the
  functions of contracts.go then return no value).
\<close>

fun decode_members :: "(string \<Rightarrow> json \<Rightarrow> 'a \<Rightarrow> error + 'a) \<Rightarrow> (string \<times> json) list \<Rightarrow> 'a \<Rightarrow> error + 'a" where
  "decode_members f [] a = Inr a"
| "decode_members f ((k, v) # kvs) a =
     (case f k v a of Inl e \<Rightarrow> Inl e | Inr a' \<Rightarrow> decode_members f kvs a')"

text \<open>
  \<open>json.Unmarshal(data, &x)\<close> for a struct \<open>x\<close> that starts as \<open>zero\<close>: a syntax error,
  a no-op on \<open>null\<close>, the members of an object, and a type error on any other document.
\<close>

definition Unmarshal :: "(string \<Rightarrow> json \<Rightarrow> 'a \<Rightarrow> error + 'a) \<Rightarrow> 'a \<Rightarrow> line \<Rightarrow> error + 'a" where
  "Unmarshal f zero l =
     (case l of
        Malformed \<Rightarrow> Inl SyntaxError
      | Document JNull \<Rightarrow> Inr zero
      | Document (JObject kvs) \<Rightarrow> decode_members f kvs zero
      | Document _ \<Rightarrow> Inl UnmarshalTypeError)"

section \<open>The messages of contracts.go\<close>

record ProgressEvent =
  Stage :: string
  Current :: "64 word"
  Total :: "64 word"
  Percentage :: float64
  Message :: string
  Timestamp :: gotime

record ModuleRequest =
  Command :: string
  Args :: "(string \<times> goval) list option"
  AuthToken :: string
  DeviceToken :: string
  Timeout :: "64 word"

record ModuleResponse =
  Success :: bool
  Data :: "(string \<times> goval) list option"
  Error :: string
  Progress :: "ProgressEvent option"

text \<open>
  \<open>ModuleRequest.Validate\<close>: the receiver is a pointer and the default timeout is
  written into it, so the model returns the request as the call leaves it.
\<close>

definition ModuleRequest_Validate :: "ModuleRequest \<Rightarrow> error + ModuleRequest" where
  "ModuleRequest_Validate r =
     (if Command r = [] then Inl (ErrInvalidRequest ''command is required'')
      else if Timeout r \<le>s 0 then Inr (r\<lparr>Timeout := 300\<rparr>)
      else Inr r)"

text \<open>\<open>ModuleResponse.Validate\<close> and \<open>ProgressEvent.Validate\<close>: \<open>None\<close> is Go's nil error.\<close>

definition ModuleResponse_Validate :: "ModuleResponse \<Rightarrow> error option" where
  "ModuleResponse_Validate r =
     (if \<not> Success r \<and> Error r = []
      then Some (ErrInvalidResponse ''error message required for failed response'')
      else None)"

definition ProgressEvent_Validate :: "ProgressEvent \<Rightarrow> error option" where
  "ProgressEvent_Validate p =
     (if Stage p = [] then Some (ErrInvalidProgress ''stage is required'')
      else if Total p <s 0 then Some (ErrInvalidProgress ''total must be non-negative'')
      else if Current p <s 0 then Some (ErrInvalidProgress ''current must be non-negative'')
      else if Total p <s Current p then Some (ErrInvalidProgress ''current cannot exceed total'')
      else if flt_less (Percentage p) (Finite 0) \<or> flt_less (Finite 100) (Percentage p)
        then Some (ErrInvalidProgress ''percentage must be between 0 and 100'')
      else None)"

text \<open>
  The \<open>FromJSON\<close> functions: \<open>json.Unmarshal\<close> into a zero struct, by the \<open>json\<close> tags
  of the struct's fields. A key that matches no field is ignored; a field with no key
  keeps its zero value.
\<close>

definition zero_ProgressEvent :: ProgressEvent where
  "zero_ProgressEvent =
     \<lparr>Stage = [], Current = 0, Total = 0, Percentage = Finite 0, Message = [],
      Timestamp = zero_time\<rparr>"

definition zero_ModuleResponse :: ModuleResponse where
  "zero_ModuleResponse = \<lparr>Success = False, Data = None, Error = [], Progress = None\<rparr>"

definition zero_ModuleRequest :: ModuleRequest where
  "zero_ModuleRequest =
     \<lparr>Command = [], Args = None, AuthToken = [], DeviceToken = [], Timeout = 0\<rparr>"

definition ProgressEvent_member :: "string \<Rightarrow> json \<Rightarrow> ProgressEvent \<Rightarrow> error + ProgressEvent" where
  "ProgressEvent_member k v p =
     (let f = fold_name k in
      if f = ''stage'' then map_sum id (\<lambda>x. p\<lparr>Stage := x\<rparr>) (decode_string v (Stage p))
      else if f = ''current'' then map_sum id (\<lambda>x. p\<lparr>Current := x\<rparr>) (decode_int64 v (Current p))
      else if f = ''total'' then map_sum id (\<lambda>x. p\<lparr>Total := x\<rparr>) (decode_int64 v (Total p))
      else if f = ''percentage'' then map_sum id (\<lambda>x. p\<lparr>Percentage := x\<rparr>) (decode_float64 v (Percentage p))
      else if f = ''message'' then map_sum id (\<lambda>x. p\<lparr>Message := x\<rparr>) (decode_string v (Message p))
      else if f = ''timestamp'' then map_sum id (\<lambda>x. p\<lparr>Timestamp := x\<rparr>) (decode_time v (Timestamp p))
      else Inr p)"

definition ProgressEventFromJSON :: "line \<Rightarrow> error + ProgressEvent" where
  "ProgressEventFromJSON l = Unmarshal ProgressEvent_member zero_ProgressEvent l"

text \<open>The field \<open>Progress *ProgressEvent\<close>: \<open>null\<close> sets the pointer to nil.\<close>

fun decode_progress :: "json \<Rightarrow> ProgressEvent option \<Rightarrow> error + ProgressEvent option" where
  "decode_progress JNull cur = Inr None"
| "decode_progress (JObject kvs) cur =
     map_sum id Some
       (decode_members ProgressEvent_member kvs
          (case cur of None \<Rightarrow> zero_ProgressEvent | Some p \<Rightarrow> p))"
| "decode_progress _ cur = Inl UnmarshalTypeError"

definition ModuleResponse_member :: "string \<Rightarrow> json \<Rightarrow> ModuleResponse \<Rightarrow> error + ModuleResponse" where
  "ModuleResponse_member k v r =
     (let f = fold_name k in
      if f = ''success'' then map_sum id (\<lambda>x. r\<lparr>Success := x\<rparr>) (decode_bool v (Success r))
      else if f = ''data'' then map_sum id (\<lambda>x. r\<lparr>Data := x\<rparr>) (decode_map v (Data r))
      else if f = ''error'' then map_sum id (\<lambda>x. r\<lparr>Error := x\<rparr>) (decode_string v (Error r))
      else if f = ''progress'' then map_sum id (\<lambda>x. r\<lparr>Progress := x\<rparr>) (decode_progress v (Progress r))
      else Inr r)"

definition ModuleResponseFromJSON :: "line \<Rightarrow> error + ModuleResponse" where
  "ModuleResponseFromJSON l = Unmarshal ModuleResponse_member zero_ModuleResponse l"

definition ModuleRequest_member :: "string \<Rightarrow> json \<Rightarrow> ModuleRequest \<Rightarrow> error + ModuleRequest" where
  "ModuleRequest_member k v r =
     (let f = fold_name k in
      if f = ''command'' then map_sum id (\<lambda>x. r\<lparr>Command := x\<rparr>) (decode_string v (Command r))
      else if f = ''args'' then map_sum id (\<lambda>x. r\<lparr>Args := x\<rparr>) (decode_map v (Args r))
      else if f = ''auth_token'' then map_sum id (\<lambda>x. r\<lparr>AuthToken := x\<rparr>) (decode_string v (AuthToken r))
      else if f = ''device_token'' then map_sum id (\<lambda>x. r\<lparr>DeviceToken := x\<rparr>) (decode_string v (DeviceToken r))
      else if f = ''timeout'' then map_sum id (\<lambda>x. r\<lparr>Timeout := x\<rparr>) (decode_int64 v (Timeout r))
      else Inr r)"

definition ModuleRequestFromJSON :: "line \<Rightarrow> error + ModuleRequest" where
  "ModuleRequestFromJSON l = Unmarshal ModuleRequest_member zero_ModuleRequest l"

text \<open>
  \<open>ModuleRequest.ToJSON\<close>: \<open>json.Marshal\<close> of the request, as the document it writes
  (always on one line: the encoder escapes every line break inside a string). An
  \<open>interface{}\<close> value is written by its dynamic type; a float that is not finite is an
  \<open>UnsupportedValueError\<close>; a finite float with an integral value below \<open>10^21\<close> is
  written without a fraction or exponent; the keys of a map are written once each, in
  sorted order. Strings are taken as well-formed UTF-8 text, which the encoder keeps.
\<close>

primrec marshal_supported :: "goval \<Rightarrow> bool" where
  "marshal_supported GNil = True"
| "marshal_supported (GBool b) = True"
| "marshal_supported (GInt n) = True"
| "marshal_supported (GFloat f) = (case f of Finite r \<Rightarrow> True | _ \<Rightarrow> False)"
| "marshal_supported (GString s) = True"
| "marshal_supported (GSlice xs) = list_all marshal_supported xs"
| "marshal_supported (GMap kvs) = list_all (pred_prod (\<lambda>k. True) marshal_supported) kvs"

definition marshal_float :: "float64 \<Rightarrow> json" where
  "marshal_float f =
     (case f of
        Finite r \<Rightarrow>
          (if r = of_int \<lfloor>r\<rfloor> \<and> \<bar>r\<bar> < 10 ^ 21 then JInt \<lfloor>r\<rfloor> else JFrac (Finite r))
      | _ \<Rightarrow> JNull)"

primrec marshal_any :: "goval \<Rightarrow> json" where
  "marshal_any GNil = JNull"
| "marshal_any (GBool b) = JBool b"
| "marshal_any (GInt n) = JInt n"
| "marshal_any (GFloat f) = marshal_float f"
| "marshal_any (GString s) = JString s"
| "marshal_any (GSlice xs) = JArray (map marshal_any xs)"
| "marshal_any (GMap kvs) = JObject (sorted_members (map (map_prod id marshal_any) kvs))"

definition marshal_map :: "(string \<times> goval) list option \<Rightarrow> json" where
  "marshal_map m = (case m of None \<Rightarrow> JNull | Some kvs \<Rightarrow> marshal_any (GMap kvs))"

definition ModuleRequest_ToJSON :: "ModuleRequest \<Rightarrow> error + json" where
  "ModuleRequest_ToJSON r =
     (if (case Args r of None \<Rightarrow> True | Some kvs \<Rightarrow> marshal_supported (GMap kvs))
      then Inr (JObject
        [(''command'', JString (Command r)),
         (''args'', marshal_map (Args r)),
         (''auth_token'', JString (AuthToken r)),
         (''device_token'', JString (DeviceToken r)),
         (''timeout'', JInt (sint (Timeout r)))])
      else Inl UnsupportedValueError)"

text \<open>
  \<open>time.Time.MarshalJSON\<close>: the instant in RFC 3339 form with nanoseconds (here in UTC),
  an error when the year is outside \<open>[0, 9999]\<close>. The date is computed from the days since
  the epoch in the proleptic Gregorian calendar.
\<close>

definition digit :: "int \<Rightarrow> char" where
  "digit n = char_of (48 + n mod 10)"

definition pad :: "nat \<Rightarrow> int \<Rightarrow> string" where
  "pad width n = map (\<lambda>k. digit (n div 10 ^ k)) (rev [0..<width])"

definition civil_from_days :: "int \<Rightarrow> int \<times> int \<times> int" where
  "civil_from_days days =
     (let z = days + 719468;
          era = z div 146097;
          doe = z mod 146097;
          yoe = (doe - doe div 1460 + doe div 36524 - doe div 146096) div 365;
          doy = doe - (365 * yoe + yoe div 4 - yoe div 100);
          mp = (5 * doy + 2) div 153;
          d = doy - (153 * mp + 2) div 5 + 1;
          m = (if mp < 10 then mp + 3 else mp - 9);
          y = yoe + era * 400 + (if m \<le> 2 then 1 else 0)
      in (y, m, d))"

definition year_of :: "gotime \<Rightarrow> int" where
  "year_of t = fst (civil_from_days (t div 1000000000 div 86400))"

definition RFC3339Nano :: "gotime \<Rightarrow> string" where
  "RFC3339Nano t =
     (let secs = t div 1000000000;
          nanos = t mod 1000000000;
          tod = secs mod 86400;
          (y, m, d) = civil_from_days (secs div 86400);
          frac = rev (dropWhile (\<lambda>c. c = CHR ''0'') (rev (pad 9 nanos)))
      in pad 4 y @ ''-'' @ pad 2 m @ ''-'' @ pad 2 d @ ''T'' @
         pad 2 (tod div 3600) @ '':'' @ pad 2 (tod mod 3600 div 60) @ '':'' @ pad 2 (tod mod 60) @
         (if frac = [] then [] else CHR ''.'' # frac) @ ''Z'')"

definition Time_MarshalJSON :: "gotime \<Rightarrow> error + json" where
  "Time_MarshalJSON t =
     (if 0 \<le> year_of t \<and> year_of t \<le> 9999 then Inr (JStamp (RFC3339Nano t) t)
      else Inl (ErrorString ''Time.MarshalJSON: year outside of range [0,9999]''))"

text \<open>
  \<open>ProgressEvent.ToJSON\<close> and \<open>ModuleResponse.ToJSON\<close>: the fields in the order of the
  struct, under the names of their \<open>json\<close> tags. \<open>progress\<close> is tagged \<open>omitempty\<close>: a nil
  pointer writes no member.
\<close>

definition ProgressEvent_ToJSON :: "ProgressEvent \<Rightarrow> error + json" where
  "ProgressEvent_ToJSON p =
     (case Percentage p of
        Finite r \<Rightarrow>
          (case Time_MarshalJSON (Timestamp p) of
             Inl err \<Rightarrow> Inl err
           | Inr ts \<Rightarrow>
               Inr (JObject
                 [(''stage'', JString (Stage p)),
                  (''current'', JInt (sint (Current p))),
                  (''total'', JInt (sint (Total p))),
                  (''percentage'', marshal_float (Percentage p)),
                  (''message'', JString (Message p)),
                  (''timestamp'', ts)]))
      | _ \<Rightarrow> Inl UnsupportedValueError)"

definition ModuleResponse_ToJSON :: "ModuleResponse \<Rightarrow> error + json" where
  "ModuleResponse_ToJSON r =
     (if (case Data r of None \<Rightarrow> True | Some kvs \<Rightarrow> marshal_supported (GMap kvs))
      then
        (case Progress r of
           None \<Rightarrow>
             Inr (JObject
               [(''success'', JBool (Success r)),
                (''data'', marshal_map (Data r)),
                (''error'', JString (Error r))])
         | Some p \<Rightarrow>
             (case ProgressEvent_ToJSON p of
                Inl err \<Rightarrow> Inl err
              | Inr pj \<Rightarrow>
                  Inr (JObject
                    [(''success'', JBool (Success r)),
                     (''data'', marshal_map (Data r)),
                     (''error'', JString (Error r)),
                     (''progress'', pj)])))
      else Inl UnsupportedValueError)"

section \<open>The bridge: JSONBridge and one exchange with a module process\<close>

text \<open>
  What the bridge does to the operating system is written as explicit state. A started
  process is named by a number (the \<open>*exec.Cmd\<close>); each of its three pipes is an end the
  bridge holds.
\<close>

datatype pipe = StdinPipe nat | StdoutPipe nat | StderrPipe nat

datatype pstatus = Running | Exited | Reaped

text \<open>
  What a pipe still has to give to a reader: complete lines, each with the time at which
  it is there to be read, and then the end of the stream at some time (\<open>EOF\<close>, or a read
  error), or a writer that keeps the pipe open and writes no further line (\<open>Open\<close>).
  Bytes after the last line break are not a line: \<open>ReadString\<close> returns them together
  with the end of the stream, and the bridge drops them.
\<close>

datatype stream_end = EOF gotime | Fault gotime error | Open

type_synonym stream = "(gotime \<times> line) list \<times> stream_end"

datatype chunk = JSONText json | Bytes string

datatype syscall =
    Start nat
  | Write pipe chunk
  | Close pipe
  | Read pipe
  | Kill nat
  | Wait nat

text \<open>
  The process a launch starts: its handle, whether it is still running when the bridge
  comes to kill it, and what it writes to its standard output and standard error.
\<close>

record child =
  handle :: nat
  still_running :: bool
  stdout_stream :: stream
  stderr_stream :: stream

text \<open>
  The world outside the bridge: the clock (it moves only while a read waits for its
  line), which paths do not exist, what starting an interpreter on a path gives (an
  error of one of the pipe calls or of \<open>cmd.Start\<close>, or a process), the processes and
  their status, what each pipe still holds, the outcomes of the coming writes and closes
  on each pipe (success once the list is used up), and the calls made so far. A call on a
  pipe returns with Go's error value, or it does not return: a \<open>Write\<close> blocks for as long as
  the pipe is full and the process at its other end does not read.
\<close>

datatype outcome = Returns "error option" | Blocks

record world =
  now :: gotime
  not_exist :: "string \<Rightarrow> bool"
  exec :: "string \<Rightarrow> string \<Rightarrow> error + child"
  procs :: "nat \<Rightarrow> pstatus option"
  streams :: "pipe \<Rightarrow> stream"
  writes :: "pipe \<Rightarrow> outcome list"
  trace :: "syscall list"

record JSONBridge =
  pythonPath :: string
  modulesDir :: string
  processes :: "string \<Rightarrow> nat option"

definition NewJSONBridge :: "string \<Rightarrow> string \<Rightarrow> JSONBridge" where
  "NewJSONBridge python dir = \<lparr>pythonPath = python, modulesDir = dir, processes = Map.empty\<rparr>"

text \<open>The text of an error (\<open>err.Error()\<close>), as \<open>%v\<close> prints it.\<close>

fun error_text :: "error \<Rightarrow> string" where
  "error_text (BridgeError c m) = m"
| "error_text (Errorf p e) = p @ '': '' @ error_text e"
| "error_text (ErrorString s) = s"

text \<open>\<open>%d\<close> of \<open>fmt.Sprintf\<close>: an integer in decimal.\<close>

function format_nat :: "nat \<Rightarrow> string" where
  "format_nat n =
     (if n < 10 then [char_of (48 + n)]
      else format_nat (n div 10) @ [char_of (48 + n mod 10)])"
  by pat_completeness auto
termination
  by (relation "measure id") auto

declare format_nat.simps [simp del]

definition format_int :: "int \<Rightarrow> string" where
  "format_int i = (if i < 0 then CHR ''-'' # format_nat (nat (- i)) else format_nat (nat i))"

definition findModule :: "JSONBridge \<Rightarrow> string \<Rightarrow> world \<Rightarrow> error + string" where
  "findModule b mod_name w =
     (let modulePath = modulesDir b @ ''/'' @ mod_name @ ''/__main__.py'' in
      if not_exist w modulePath
      then Inl (ErrorString (''module file not found: '' @ modulePath))
      else Inr modulePath)"

text \<open>
  \<open>launchPythonProcess\<close> makes the three pipes and starts the process. It returns the
  command, the standard input pipe and the standard error pipe; the standard output
  pipe it made is not returned.
\<close>

definition launchPythonProcess ::
  "JSONBridge \<Rightarrow> string \<Rightarrow> world \<Rightarrow> (error + nat \<times> pipe \<times> pipe) \<times> world" where
  "launchPythonProcess b modulePath w =
     (case exec w (pythonPath b) modulePath of
        Inl err \<Rightarrow> (Inl err, w)
      | Inr c \<Rightarrow>
          (Inr (handle c, StdinPipe (handle c), StderrPipe (handle c)),
           w\<lparr>procs := (procs w)(handle c \<mapsto> (if still_running c then Running else Exited)),
             streams := (streams w)
               (StdoutPipe (handle c) := stdout_stream c,
                StderrPipe (handle c) := stderr_stream c),
             trace := trace w @ [Start (handle c)]\<rparr>))"

text \<open>
  One \<open>Write\<close> or \<open>Close\<close> on a pipe: the call is made, and the world gives its outcome.
  \<open>None\<close> is a call that does not return.
\<close>

definition pipe_call :: "syscall \<Rightarrow> pipe \<Rightarrow> world \<Rightarrow> (error option \<times> world) option" where
  "pipe_call c p w =
     (case writes w p of
        [] \<Rightarrow> Some (None, w\<lparr>trace := trace w @ [c]\<rparr>)
      | Returns r # rs \<Rightarrow> Some (r, w\<lparr>writes := (writes w)(p := rs), trace := trace w @ [c]\<rparr>)
      | Blocks # rs \<Rightarrow> None)"

text \<open>
  \<open>sendRequest\<close>: the document, the line break, the close; the first error ends it. It
  does not return when one of its calls does not.
\<close>

definition sendRequest :: "pipe \<Rightarrow> ModuleRequest \<Rightarrow> world \<Rightarrow> (error option \<times> world) option" where
  "sendRequest stdin req w =
     (case ModuleRequest_ToJSON req of
        Inl err \<Rightarrow> Some (Some err, w)
      | Inr data \<Rightarrow>
          (case pipe_call (Write stdin (JSONText data)) stdin w of
             None \<Rightarrow> None
           | Some (Some err, w1) \<Rightarrow> Some (Some err, w1)
           | Some (None, w1) \<Rightarrow>
               (case pipe_call (Write stdin (Bytes [CHR 0x0A])) stdin w1 of
                  None \<Rightarrow> None
                | Some (Some err, w2) \<Rightarrow> Some (Some err, w2)
                | Some (None, w2) \<Rightarrow> pipe_call (Close stdin) stdin w2)))"

text \<open>
  \<open>reader.ReadString('\n')\<close> on a pipe: the next line, once it is there (the clock
  moves to its time when that is later than now); the end of the stream; or no return
  at all (\<open>None\<close>) when the pipe stays open and nothing is written.
\<close>

definition io_EOF :: error where
  "io_EOF = ErrorString ''EOF''"

definition ReadString :: "pipe \<Rightarrow> world \<Rightarrow> ((error + line) \<times> world) option" where
  "ReadString p w =
     (case streams w p of
        ((t, l) # rest, e) \<Rightarrow>
          Some (Inr l, w\<lparr>now := max (now w) t, streams := (streams w)(p := (rest, e)),
                         trace := trace w @ [Read p]\<rparr>)
      | ([], EOF t) \<Rightarrow> Some (Inl io_EOF, w\<lparr>now := max (now w) t, trace := trace w @ [Read p]\<rparr>)
      | ([], Fault t err) \<Rightarrow> Some (Inl err, w\<lparr>now := max (now w) t, trace := trace w @ [Read p]\<rparr>)
      | ([], Open) \<Rightarrow> None)"

text \<open>
  A context is the time at which it is done (\<open>None\<close>: never, as \<open>context.Background()\<close>).
  \<open>context.WithTimeout(ctx, time.Duration(timeout) * time.Second)\<close>: the product is an
  \<open>int64\<close> of nanoseconds and wraps around.
\<close>

definition WithTimeout :: "gotime option \<Rightarrow> 64 word \<Rightarrow> gotime \<Rightarrow> gotime option" where
  "WithTimeout ctx timeout t =
     (let deadline = t + sint (timeout * 1000000000) in
      case ctx of None \<Rightarrow> Some deadline | Some d \<Rightarrow> Some (min d deadline))"

definition ctx_Done :: "gotime option \<Rightarrow> gotime \<Rightarrow> bool" where
  "ctx_Done ctx t = (case ctx of None \<Rightarrow> False | Some d \<Rightarrow> d \<le> t)"

text \<open>
  \<open>readResponse\<close>: the \<open>select\<close> looks at the context once; when it is not done, the
  \<open>default\<close> branch reads one line and parses it as a response.
\<close>

definition readResponse ::
  "gotime option \<Rightarrow> pipe \<Rightarrow> world \<Rightarrow> ((error + ModuleResponse) \<times> world) option" where
  "readResponse ctx stderr w =
     (if ctx_Done ctx (now w)
      then Some (Inl (ErrModuleTimeout ''module execution timed out''), w)
      else
        (case ReadString stderr w of
           None \<Rightarrow> None
         | Some (Inl err, w') \<Rightarrow>
             (if cause err = io_EOF
              then Some (Inl (ErrModuleError ''module process ended unexpectedly''), w')
              else Some (Inl (Errorf ''failed to read response'' err), w'))
         | Some (Inr l, w') \<Rightarrow>
             (case ModuleResponseFromJSON l of
                Inl err \<Rightarrow> Some (Inl (Errorf ''failed to parse response'' err), w')
              | Inr resp \<Rightarrow> Some (Inr resp, w'))))"

text \<open>
  The progress channel \<open>chan<- *ProgressEvent\<close>: its capacity, the events in its buffer,
  the events a receiver has taken, and whether a goroutine is receiving from it. A send
  returns when a receiver takes the event or the buffer has room; otherwise it does not
  return (\<open>None\<close>). A nil channel is one with no capacity and no receiver.
\<close>

record sink =
  capacity :: nat
  buffer :: "ProgressEvent list"
  received :: "ProgressEvent list"
  receiving :: bool

definition send :: "sink \<Rightarrow> ProgressEvent \<Rightarrow> sink option" where
  "send ch ev =
     (if receiving ch then Some (ch\<lparr>received := received ch @ buffer ch @ [ev], buffer := []\<rparr>)
      else if length (buffer ch) < capacity ch then Some (ch\<lparr>buffer := buffer ch @ [ev]\<rparr>)
      else None)"

text \<open>Every event sent so far, in the order of the sends.\<close>

definition delivered :: "sink \<Rightarrow> ProgressEvent list" where
  "delivered ch = received ch @ buffer ch"

text \<open>
  \<open>readResponseWithProgress\<close>: the loop of \<open>select\<close>, read, try-progress, else
  parse-as-response. \<open>time.Now()\<close> is the world's clock after the read.
\<close>

definition parse_response :: "line \<Rightarrow> error + ModuleResponse" where
  "parse_response l =
     (case ModuleResponseFromJSON l of
        Inl err \<Rightarrow> Inl (Errorf ''failed to parse response'' err)
      | Inr resp \<Rightarrow> Inr resp)"

function readResponseWithProgress ::
  "gotime option \<Rightarrow> pipe \<Rightarrow> sink \<Rightarrow> world \<Rightarrow> ((error + ModuleResponse) \<times> sink \<times> world) option" where
  "readResponseWithProgress ctx stderr progressChan w =
     (if ctx_Done ctx (now w)
      then Some (Inl (ErrModuleTimeout ''module execution timed out''), progressChan, w)
      else
        (case ReadString stderr w of
           None \<Rightarrow> None
         | Some (Inl err, w') \<Rightarrow>
             (if cause err = io_EOF
              then Some (Inl (ErrModuleError ''module process ended unexpectedly''), progressChan, w')
              else Some (Inl (Errorf ''failed to read response'' err), progressChan, w'))
         | Some (Inr l, w') \<Rightarrow>
             (case ProgressEventFromJSON l of
                Inr progress \<Rightarrow>
                  (if ProgressEvent_Validate progress = None
                   then (case send progressChan (progress\<lparr>Timestamp := now w'\<rparr>) of
                           None \<Rightarrow> None
                         | Some ch' \<Rightarrow> readResponseWithProgress ctx stderr ch' w')
                   else Some (parse_response l, progressChan, w'))
              | Inl err \<Rightarrow> Some (parse_response l, progressChan, w'))))"
  by pat_completeness auto
termination
  by (relation "measure (\<lambda>(ctx, p, ch, w). length (fst (streams w p)))")
     (auto simp: ReadString_def split: prod.splits list.splits stream_end.splits)

declare readResponseWithProgress.simps [simp del]

text \<open>
  \<open>cmd.Process.Kill()\<close> and \<open>cmd.Wait()\<close>. Killing a process that has already exited
  changes nothing (Go returns an error there, which the bridge drops). \<open>Wait\<close> returns
  once the process has exited, and reaps it; called again it returns an error, dropped
  as well.
\<close>

definition Process_Kill :: "nat \<Rightarrow> world \<Rightarrow> world" where
  "Process_Kill cmd w =
     w\<lparr>procs := (case procs w cmd of
                   Some Running \<Rightarrow> (procs w)(cmd \<mapsto> Exited)
                 | _ \<Rightarrow> procs w),
       trace := trace w @ [Kill cmd]\<rparr>"

definition Cmd_Wait :: "nat \<Rightarrow> world \<Rightarrow> world option" where
  "Cmd_Wait cmd w =
     (case procs w cmd of
        Some Running \<Rightarrow> None
      | Some Exited \<Rightarrow> Some (w\<lparr>procs := (procs w)(cmd \<mapsto> Reaped), trace := trace w @ [Wait cmd]\<rparr>)
      | _ \<Rightarrow> Some (w\<lparr>trace := trace w @ [Wait cmd]\<rparr>))"

text \<open>
  The deferred function of \<open>Execute\<close> and \<open>ExecuteWithProgress\<close>: delete the entry of
  the process table, kill, wait.
\<close>

definition deferred_cleanup ::
  "string \<Rightarrow> nat \<Rightarrow> JSONBridge \<times> world \<Rightarrow> (JSONBridge \<times> world) option" where
  "deferred_cleanup processID cmd bw =
     (case bw of (b, w) \<Rightarrow>
        map_option (\<lambda>w'. (b\<lparr>processes := (processes b)(processID := None)\<rparr>, w'))
          (Cmd_Wait cmd (Process_Kill cmd w)))"

text \<open>
  \<open>Execute\<close>. The request is validated in place, so the request sent is the validated
  one. In \<open>cmd, stdout, stderr, err := b.launchPythonProcess(modulePath)\<close> the variable
  \<open>stdout\<close> receives the second result and \<open>stderr\<close> the third. The deferred function
  runs when the body returns; a body that does not return (\<open>None\<close>: a write, a read or a
  channel send that blocks for ever) never reaches it.
  The calls of the logger are left out.
\<close>

definition Execute ::
  "JSONBridge \<Rightarrow> gotime option \<Rightarrow> string \<Rightarrow> ModuleRequest \<Rightarrow> world \<Rightarrow>
   ((error + ModuleResponse) \<times> JSONBridge \<times> world) option" where
  "Execute b ctx mod_name req0 w =
     (case ModuleRequest_Validate req0 of
        Inl err \<Rightarrow> Some (Inl err, b, w)
      | Inr req \<Rightarrow>
     (case findModule b mod_name w of
        Inl err \<Rightarrow>
          Some (Inl (ErrModuleNotFound (''module '' @ mod_name @ '' not found: '' @ error_text err)), b, w)
      | Inr modulePath \<Rightarrow>
     (case launchPythonProcess b modulePath w of
        (Inl err, w0) \<Rightarrow> Some (Inl (Errorf ''failed to launch Python process'' err), b, w0)
      | (Inr (cmd, stdout, stderr), w0) \<Rightarrow>
          (let processID = mod_name @ ''-'' @ format_int (now w0);
               b1 = b\<lparr>processes := (processes b)(processID \<mapsto> cmd)\<rparr>;
               ctx1 = WithTimeout ctx (Timeout req) (now w0);
               body =
                 (case sendRequest stdout req w0 of
                    None \<Rightarrow> None
                  | Some (Some err, w1) \<Rightarrow> Some (Inl (Errorf ''failed to send request'' err), w1)
                  | Some (None, w1) \<Rightarrow>
                 (case readResponse ctx1 stderr w1 of
                    None \<Rightarrow> None
                  | Some (Inl err, w2) \<Rightarrow> Some (Inl (Errorf ''failed to read response'' err), w2)
                  | Some (Inr resp, w2) \<Rightarrow>
                 (case ModuleResponse_Validate resp of
                    Some err \<Rightarrow> Some (Inl err, w2)
                  | None \<Rightarrow> Some (Inr resp, w2))))
           in case body of
                None \<Rightarrow> None
              | Some (result, w3) \<Rightarrow>
                  map_option (\<lambda>(b2, w4). (result, b2, w4))
                    (deferred_cleanup processID cmd (b1, w3))))))"

definition ExecuteWithProgress ::
  "JSONBridge \<Rightarrow> gotime option \<Rightarrow> string \<Rightarrow> ModuleRequest \<Rightarrow> sink \<Rightarrow> world \<Rightarrow>
   ((error + ModuleResponse) \<times> sink \<times> JSONBridge \<times> world) option" where
  "ExecuteWithProgress b ctx mod_name req0 progressChan w =
     (case ModuleRequest_Validate req0 of
        Inl err \<Rightarrow> Some (Inl err, progressChan, b, w)
      | Inr req \<Rightarrow>
     (case findModule b mod_name w of
        Inl err \<Rightarrow>
          Some (Inl (ErrModuleNotFound (''module '' @ mod_name @ '' not found: '' @ error_text err)),
                progressChan, b, w)
      | Inr modulePath \<Rightarrow>
     (case launchPythonProcess b modulePath w of
        (Inl err, w0) \<Rightarrow>
          Some (Inl (Errorf ''failed to launch Python process'' err), progressChan, b, w0)
      | (Inr (cmd, stdout, stderr), w0) \<Rightarrow>
          (let processID = mod_name @ ''-'' @ format_int (now w0);
               b1 = b\<lparr>processes := (processes b)(processID \<mapsto> cmd)\<rparr>;
               ctx1 = WithTimeout ctx (Timeout req) (now w0);
               body =
                 (case sendRequest stdout req w0 of
                    None \<Rightarrow> None
                  | Some (Some err, w1) \<Rightarrow>
                      Some (Inl (Errorf ''failed to send request'' err), progressChan, w1)
                  | Some (None, w1) \<Rightarrow>
                 (case readResponseWithProgress ctx1 stderr progressChan w1 of
                    None \<Rightarrow> None
                  | Some (Inl err, ch, w2) \<Rightarrow>
                      Some (Inl (Errorf ''failed to read response'' err), ch, w2)
                  | Some (Inr resp, ch, w2) \<Rightarrow>
                 (case ModuleResponse_Validate resp of
                    Some err \<Rightarrow> Some (Inl err, ch, w2)
                  | None \<Rightarrow> Some (Inr resp, ch, w2))))
           in case body of
                None \<Rightarrow> None
              | Some (result, ch, w3) \<Rightarrow>
                  map_option (\<lambda>(b2, w4). (result, ch, b2, w4))
                    (deferred_cleanup processID cmd (b1, w3))))))"

section \<open>The plugin registry\<close>

record ModuleManifest =
  Name :: string
  Version :: string
  Description :: string
  Commands :: "string list"
  Dependencies :: "string list"
  Author :: string
  License :: string

record ModuleInfo =
  Manifest :: ModuleManifest
  Path :: string
  LoadedAt :: gotime
  Signature :: string

definition zero_ModuleManifest :: ModuleManifest where
  "zero_ModuleManifest =
     \<lparr>Name = [], Version = [], Description = [], Commands = [], Dependencies = [],
      Author = [], License = []\<rparr>"

text \<open>
  Decoding into a \<open>[]string\<close>: \<open>null\<close> gives the nil slice, an array gives its elements
  (a \<open>null\<close> element is the empty string). The nil slice and the empty slice are both
  \<open>[]\<close>: the registry only takes the length and ranges over them.
\<close>

fun decode_strings :: "json list \<Rightarrow> error + string list" where
  "decode_strings [] = Inr []"
| "decode_strings (v # vs) =
     (case decode_string v [] of
        Inl err \<Rightarrow> Inl err
      | Inr x \<Rightarrow> map_sum id ((#) x) (decode_strings vs))"

fun decode_string_slice :: "json \<Rightarrow> string list \<Rightarrow> error + string list" where
  "decode_string_slice JNull cur = Inr []"
| "decode_string_slice (JArray vs) cur = decode_strings vs"
| "decode_string_slice _ cur = Inl UnmarshalTypeError"

definition ModuleManifest_member :: "string \<Rightarrow> json \<Rightarrow> ModuleManifest \<Rightarrow> error + ModuleManifest" where
  "ModuleManifest_member k v m =
     (let f = fold_name k in
      if f = ''name'' then map_sum id (\<lambda>x. m\<lparr>Name := x\<rparr>) (decode_string v (Name m))
      else if f = ''version'' then map_sum id (\<lambda>x. m\<lparr>Version := x\<rparr>) (decode_string v (Version m))
      else if f = ''description'' then map_sum id (\<lambda>x. m\<lparr>Description := x\<rparr>) (decode_string v (Description m))
      else if f = ''commands'' then map_sum id (\<lambda>x. m\<lparr>Commands := x\<rparr>) (decode_string_slice v (Commands m))
      else if f = ''dependencies'' then map_sum id (\<lambda>x. m\<lparr>Dependencies := x\<rparr>) (decode_string_slice v (Dependencies m))
      else if f = ''author'' then map_sum id (\<lambda>x. m\<lparr>Author := x\<rparr>) (decode_string v (Author m))
      else if f = ''license'' then map_sum id (\<lambda>x. m\<lparr>License := x\<rparr>) (decode_string v (License m))
      else Inr m)"

text \<open>
  The file system as the registry reads it. A path is missing, or there but not
  readable as a file, or a file, kept by its length in bytes and by what the JSON
  scanner makes of its bytes. \<open>os.MkdirAll\<close> and \<open>os.ReadDir\<close> are given by their results;
  a directory entry is a name and whether it is a directory. \<open>filepath.Join\<close> of a
  clean directory path and a plain name puts a separator between them.
\<close>

datatype node = Missing | Unreadable | File nat line

record filesystem =
  clock :: gotime
  node_at :: "string \<Rightarrow> node"
  MkdirAll :: "string \<Rightarrow> error option"
  ReadDir :: "string \<Rightarrow> error + (string \<times> bool) list"

definition Join :: "string \<Rightarrow> string \<Rightarrow> string" where
  "Join dir name = dir @ ''/'' @ name"

text \<open>\<open>os.IsNotExist\<close> of the error of \<open>os.Stat\<close>.\<close>

definition IsNotExist :: "filesystem \<Rightarrow> string \<Rightarrow> bool" where
  "IsNotExist fs path = (node_at fs path = Missing)"

definition ReadFile :: "filesystem \<Rightarrow> string \<Rightarrow> error + nat \<times> line" where
  "ReadFile fs path =
     (case node_at fs path of
        File n doc \<Rightarrow> Inr (n, doc)
      | _ \<Rightarrow> Inl (ErrorString (''open '' @ path)))"

text \<open>A call of the logger: the level, the message and the key-value pairs, as text.\<close>

datatype log_entry = Info string "(string \<times> string) list" | Warn string "(string \<times> string) list"

record PluginRegistry =
  PluginsDir :: string
  modules :: "string \<Rightarrow> ModuleInfo option"
  manifests :: "string \<Rightarrow> ModuleManifest option"
  logged :: "log_entry list"

definition NewPluginRegistry :: "string \<Rightarrow> PluginRegistry" where
  "NewPluginRegistry dir =
     \<lparr>PluginsDir = dir, modules = Map.empty, manifests = Map.empty, logged = []\<rparr>"

definition validateManifest :: "ModuleManifest \<Rightarrow> error option" where
  "validateManifest manifest =
     (if Name manifest = [] then Some (ErrorString ''module name is required'')
      else if Version manifest = [] then Some (ErrorString ''module version is required'')
      else if length (Commands manifest) = 0
        then Some (ErrorString ''module must define at least one command'')
      else if CHR ''.'' \<notin> set (Version manifest)
        then Some (ErrorString ''invalid version format, expected semantic versioning'')
      else None)"

definition readManifest :: "filesystem \<Rightarrow> string \<Rightarrow> error + ModuleManifest" where
  "readManifest fs path =
     (case ReadFile fs path of
        Inl err \<Rightarrow> Inl (Errorf ''failed to read manifest file'' err)
      | Inr (n, doc) \<Rightarrow>
          (case Unmarshal ModuleManifest_member zero_ModuleManifest doc of
             Inl err \<Rightarrow> Inl (Errorf ''failed to parse manifest JSON'' err)
           | Inr manifest \<Rightarrow>
               (case validateManifest manifest of
                  Some err \<Rightarrow> Inl err
                | None \<Rightarrow> Inr manifest)))"

definition validatePythonSyntax :: "filesystem \<Rightarrow> string \<Rightarrow> error option" where
  "validatePythonSyntax fs path =
     (case ReadFile fs path of
        Inl err \<Rightarrow> Some err
      | Inr (n, doc) \<Rightarrow> (if n = 0 then Some (ErrorString ''empty file'') else None))"

definition checkDependency :: "string \<Rightarrow> error option" where
  "checkDependency dep = (if dep = [] then Some (ErrorString ''empty dependency name'') else None)"

text \<open>The loop over \<open>requiredFiles\<close>, and the loop over the dependencies (it only warns).\<close>

fun required_files :: "filesystem \<Rightarrow> string \<Rightarrow> string list \<Rightarrow> error option" where
  "required_files fs path [] = None"
| "required_files fs path (file # files) =
     (if IsNotExist fs (Join path file)
      then Some (ErrorString (''required file missing: '' @ file))
      else required_files fs path files)"

fun dependency_warnings :: "string list \<Rightarrow> log_entry list" where
  "dependency_warnings [] = []"
| "dependency_warnings (dep # deps) =
     (case checkDependency dep of
        Some err \<Rightarrow>
          Warn ''Dependency check failed'' [(''dependency'', dep), (''error'', error_text err)]
            # dependency_warnings deps
      | None \<Rightarrow> dependency_warnings deps)"

definition validateModule ::
  "filesystem \<Rightarrow> ModuleManifest \<Rightarrow> string \<Rightarrow> error option \<times> log_entry list" where
  "validateModule fs manifest path =
     (case required_files fs path [''__main__.py'', ''manifest.json''] of
        Some err \<Rightarrow> (Some err, [])
      | None \<Rightarrow>
          (case validatePythonSyntax fs (Join path ''__main__.py'') of
             Some err \<Rightarrow> (Some (Errorf ''Python syntax error in __main__.py'' err), [])
           | None \<Rightarrow> (None, dependency_warnings (Dependencies manifest))))"

definition loadModule ::
  "PluginRegistry \<Rightarrow> filesystem \<Rightarrow> string \<Rightarrow> string \<Rightarrow> error option \<times> PluginRegistry" where
  "loadModule r fs name path =
     (if IsNotExist fs (Join path ''manifest.json'')
      then (Some (ErrorString ''manifest.json not found''), r)
      else
        (case readManifest fs (Join path ''manifest.json'') of
           Inl err \<Rightarrow> (Some (Errorf ''failed to read manifest'' err), r)
         | Inr manifest \<Rightarrow>
             (if IsNotExist fs (Join path ''__main__.py'')
              then (Some (ErrorString ''__main__.py not found''), r)
              else
                (case validateModule fs manifest path of
                   (Some err, ws) \<Rightarrow>
                     (Some (Errorf ''module validation failed'' err), r\<lparr>logged := logged r @ ws\<rparr>)
                 | (None, ws) \<Rightarrow>
                     (None,
                      r\<lparr>modules := (modules r)(name \<mapsto>
                           \<lparr>Manifest = manifest, Path = path, LoadedAt = clock fs, Signature = []\<rparr>),
                        manifests := (manifests r)(name \<mapsto> manifest),
                        logged := logged r @ ws @
                          [Info ''Module loaded'' [(''name'', name), (''version'', Version manifest)]]\<rparr>)))))"

text \<open>The \<open>for\<close> loop of \<open>LoadPlugins\<close> over the directory entries, with \<open>loadedCount\<close>.\<close>

fun load_entries ::
  "filesystem \<Rightarrow> (string \<times> bool) list \<Rightarrow> PluginRegistry \<Rightarrow> nat \<Rightarrow> PluginRegistry \<times> nat" where
  "load_entries fs [] r loadedCount = (r, loadedCount)"
| "load_entries fs ((moduleName, isDir) # entries) r loadedCount =
     (if \<not> isDir then load_entries fs entries r loadedCount
      else
        (case loadModule r fs moduleName (Join (PluginsDir r) moduleName) of
           (Some err, r') \<Rightarrow>
             load_entries fs entries
               (r'\<lparr>logged := logged r' @
                  [Warn ''Failed to load module'' [(''module'', moduleName), (''error'', error_text err)]]\<rparr>)
               loadedCount
         | (None, r') \<Rightarrow> load_entries fs entries r' (loadedCount + 1)))"

definition LoadPlugins :: "PluginRegistry \<Rightarrow> filesystem \<Rightarrow> error option \<times> PluginRegistry" where
  "LoadPlugins r fs =
     (let r0 = r\<lparr>logged := logged r @ [Info ''Loading plugins'' [(''plugins_dir'', PluginsDir r)]]\<rparr> in
      case MkdirAll fs (PluginsDir r) of
        Some err \<Rightarrow> (Some (Errorf ''failed to create plugins directory'' err), r0)
      | None \<Rightarrow>
          (case ReadDir fs (PluginsDir r) of
             Inl err \<Rightarrow> (Some (Errorf ''failed to read plugins directory'' err), r0)
           | Inr entries \<Rightarrow>
               (case load_entries fs entries r0 0 of
                  (r1, loadedCount) \<Rightarrow>
                    (None,
                     r1\<lparr>logged := logged r1 @
                        [Info ''Plugins loaded successfully''
                           [(''count'', format_int (int loadedCount))]]\<rparr>))))"

section \<open>Notions used to state the properties\<close>

text \<open>The event the read loop takes from a line: it decodes as a progress event and is valid.\<close>

definition progress_of :: "line \<Rightarrow> ProgressEvent option" where
  "progress_of l =
     (case ProgressEventFromJSON l of
        Inr p \<Rightarrow> (if ProgressEvent_Validate p = None then Some p else None)
      | Inl err \<Rightarrow> None)"

text \<open>The world after one line has been read from a pipe.\<close>

definition consume :: "pipe \<Rightarrow> world \<Rightarrow> world" where
  "consume p w =
     (case streams w p of
        ((t, l) # rest, e) \<Rightarrow>
          w\<lparr>now := max (now w) t, streams := (streams w)(p := (rest, e)),
            trace := trace w @ [Read p]\<rparr>
      | _ \<Rightarrow> w)"

text \<open>
  The clock after a run of lines has been read from time \<open>n\<close> on, and the valid progress
  events of these lines, each with the clock's time after its line was read.
\<close>

fun clock_after :: "gotime \<Rightarrow> (gotime \<times> line) list \<Rightarrow> gotime" where
  "clock_after n [] = n"
| "clock_after n ((t, l) # xs) = clock_after (max n t) xs"

fun stamp_all :: "gotime \<Rightarrow> (gotime \<times> line) list \<Rightarrow> ProgressEvent list" where
  "stamp_all n [] = []"
| "stamp_all n ((t, l) # xs) =
     (case progress_of l of
        Some p \<Rightarrow> p\<lparr>Timestamp := max n t\<rparr> # stamp_all (max n t) xs
      | None \<Rightarrow> stamp_all (max n t) xs)"

text \<open>The world right after a launch that gave the process \<open>c\<close>.\<close>

definition started :: "child \<Rightarrow> world \<Rightarrow> world" where
  "started c w =
     w\<lparr>procs := (procs w)(handle c \<mapsto> (if still_running c then Running else Exited)),
       streams := (streams w)
         (StdoutPipe (handle c) := stdout_stream c,
          StderrPipe (handle c) := stderr_stream c),
       trace := trace w @ [Start (handle c)]\<rparr>"

text \<open>The three calls that send a request: the document, the line break, the close.\<close>

definition request_ops :: "pipe \<Rightarrow> json \<Rightarrow> syscall list" where
  "request_ops p data = [Write p (JSONText data), Write p (Bytes [CHR 0x0A]), Close p]"

text \<open>
  The part of \<open>Execute\<close> and of \<open>ExecuteWithProgress\<close> between the \<open>defer\<close> statements and
  the return.
\<close>

definition exchange ::
  "gotime option \<Rightarrow> pipe \<Rightarrow> pipe \<Rightarrow> ModuleRequest \<Rightarrow> world \<Rightarrow>
   ((error + ModuleResponse) \<times> world) option" where
  "exchange ctx1 stdout stderr req w0 =
     (case sendRequest stdout req w0 of
        None \<Rightarrow> None
      | Some (Some err, w1) \<Rightarrow> Some (Inl (Errorf ''failed to send request'' err), w1)
      | Some (None, w1) \<Rightarrow>
     (case readResponse ctx1 stderr w1 of
        None \<Rightarrow> None
      | Some (Inl err, w2) \<Rightarrow> Some (Inl (Errorf ''failed to read response'' err), w2)
      | Some (Inr resp, w2) \<Rightarrow>
     (case ModuleResponse_Validate resp of
        Some err \<Rightarrow> Some (Inl err, w2)
      | None \<Rightarrow> Some (Inr resp, w2))))"

definition exchange_progress ::
  "gotime option \<Rightarrow> pipe \<Rightarrow> pipe \<Rightarrow> ModuleRequest \<Rightarrow> sink \<Rightarrow> world \<Rightarrow>
   ((error + ModuleResponse) \<times> sink \<times> world) option" where
  "exchange_progress ctx1 stdout stderr req progressChan w0 =
     (case sendRequest stdout req w0 of
        None \<Rightarrow> None
      | Some (Some err, w1) \<Rightarrow> Some (Inl (Errorf ''failed to send request'' err), progressChan, w1)
      | Some (None, w1) \<Rightarrow>
     (case readResponseWithProgress ctx1 stderr progressChan w1 of
        None \<Rightarrow> None
      | Some (Inl err, ch, w2) \<Rightarrow> Some (Inl (Errorf ''failed to read response'' err), ch, w2)
      | Some (Inr resp, ch, w2) \<Rightarrow>
     (case ModuleResponse_Validate resp of
        Some err \<Rightarrow> Some (Inl err, ch, w2)
      | None \<Rightarrow> Some (Inr resp, ch, w2))))"

text \<open>
  The calls of a trace that start or end a process, and the calls that move data through
  its pipes.
\<close>

fun is_lifecycle :: "syscall \<Rightarrow> bool" where
  "is_lifecycle (Start h) = True"
| "is_lifecycle (Kill h) = True"
| "is_lifecycle (Wait h) = True"
| "is_lifecycle _ = False"

definition lifecycle :: "syscall list \<Rightarrow> syscall list" where
  "lifecycle tr = filter is_lifecycle tr"

definition io_calls :: "syscall list \<Rightarrow> syscall list" where
  "io_calls tr = filter (\<lambda>x. \<not> is_lifecycle x) tr"

text \<open>
  What a call that launched the process \<open>c\<close> leaves behind: its entry of the process table
  is gone, the process is reaped, and the calls the bridge made since it was entered hold
  one start, one kill and one wait, all of \<open>c\<close>, the kill and the wait last.
\<close>

definition torn_down :: "JSONBridge \<Rightarrow> world \<Rightarrow> child \<Rightarrow> string \<Rightarrow> JSONBridge \<Rightarrow> world \<Rightarrow> bool" where
  "torn_down b w c m b' w' \<longleftrightarrow>
     processes b' = (processes b)(m @ ''-'' @ format_int (now w) := None) \<and>
     procs w' (handle c) = Some Reaped \<and>
     (\<exists>new. trace w' = trace w @ new @ [Kill (handle c), Wait (handle c)] \<and>
        lifecycle (new @ [Kill (handle c), Wait (handle c)]) =
          [Start (handle c), Kill (handle c), Wait (handle c)])"

text \<open>The validity invariant of a progress event, on the values of its fields.\<close>

definition valid_event :: "ProgressEvent \<Rightarrow> bool" where
  "valid_event ev \<longleftrightarrow>
     Stage ev \<noteq> [] \<and> 0 \<le> sint (Current ev) \<and> sint (Current ev) \<le> sint (Total ev) \<and>
     (\<exists>r. Percentage ev = Finite r \<and> 0 \<le> r \<and> r \<le> 100)"

text \<open>
  What loading the subdirectory \<open>name\<close> of \<open>dir\<close> registers under \<open>name\<close>, if anything: the
  entry that \<open>loadModule\<close> leaves in a registry that was empty.
\<close>

definition registers :: "filesystem \<Rightarrow> string \<Rightarrow> string \<Rightarrow> ModuleInfo option" where
  "registers fs dir name =
     modules (snd (loadModule (NewPluginRegistry dir) fs name (Join dir name))) name"

text \<open>
  The values of \<open>interface{}\<close> that the decoder itself produces: no int, every float
  finite, every map with its keys sorted and distinct.
\<close>

primrec json_native :: "goval \<Rightarrow> bool" where
  "json_native GNil = True"
| "json_native (GBool b) = True"
| "json_native (GInt n) = False"
| "json_native (GFloat f) = (case f of Finite r \<Rightarrow> True | _ \<Rightarrow> False)"
| "json_native (GString s) = True"
| "json_native (GSlice xs) = list_all json_native xs"
| "json_native (GMap kvs) =
     (sorted (map fst kvs) \<and> distinct (map fst kvs) \<and>
      list_all (pred_prod (\<lambda>k. True) json_native) kvs)"

definition json_native_map :: "(string \<times> goval) list option \<Rightarrow> bool" where
  "json_native_map m = (case m of None \<Rightarrow> True | Some kvs \<Rightarrow> json_native (GMap kvs))"

text \<open>A progress event that \<open>ToJSON\<close> can write: a finite percentage, a year in \<open>[0, 9999]\<close>.\<close>

definition encodable :: "ProgressEvent \<Rightarrow> bool" where
  "encodable p \<longleftrightarrow>
     (case Percentage p of Finite r \<Rightarrow> True | _ \<Rightarrow> False) \<and>
     0 \<le> year_of (Timestamp p) \<and> year_of (Timestamp p) \<le> 9999"

section \<open>Example inputs\<close>

text \<open>
  A request, a bridge, a progress channel and a world in which every launch gives a chosen
  process; a progress line and a final response line.
\<close>

definition example_progress :: line where
  "example_progress =
     Document (JObject
       [(''stage'', JString ''download''), (''current'', JInt 1), (''total'', JInt 2),
        (''percentage'', JInt 50), (''message'', JString ''half'')])"

definition example_response :: line where
  "example_response =
     Document (JObject
       [(''success'', JBool True), (''data'', JObject [(''file_path'', JString ''a.mp4'')])])"

definition example_child :: "stream \<Rightarrow> stream \<Rightarrow> child" where
  "example_child out err =
     \<lparr>handle = 1, still_running = True, stdout_stream = out, stderr_stream = err\<rparr>"

definition example_world :: "child \<Rightarrow> world" where
  "example_world c =
     \<lparr>now = 0, not_exist = (\<lambda>path. False), exec = (\<lambda>python path. Inr c), procs = Map.empty,
      streams = (\<lambda>p. ([], EOF 0)), writes = (\<lambda>p. []), trace = []\<rparr>"

definition example_request :: ModuleRequest where
  "example_request =
     \<lparr>Command = ''download'', Args = Some [(''url'', GString ''u'')], AuthToken = ''a'',
      DeviceToken = ''d'', Timeout = 300\<rparr>"

definition example_bridge :: JSONBridge where
  "example_bridge = NewJSONBridge ''python3'' ''/plugins''"

definition example_sink :: sink where
  "example_sink = \<lparr>capacity = 100, buffer = [], received = [], receiving = False\<rparr>"

definition progress_then_response :: child where
  "progress_then_response =
     example_child ([], EOF 0) ([(5, example_progress), (7, example_response)], EOF 8)"

definition response_only :: child where
  "response_only = example_child ([], EOF 0) ([(7, example_response)], EOF 8)"

definition malformed_then_response :: child where
  "malformed_then_response =
     example_child ([], EOF 0) ([(1, Malformed), (2, example_response)], EOF 3)"

definition response_on_stdout :: child where
  "response_on_stdout = example_child ([(1, example_response)], EOF 2) ([], EOF 2)"

text \<open>
  A module that answers ten seconds after its start, a module that never writes and
  keeps its pipes open, and a request with a timeout of one second.
\<close>

definition late_response :: child where
  "late_response =
     example_child ([], EOF 0) ([(10000000000, example_response)], EOF 11000000000)"

definition silent :: child where
  "silent = example_child ([], Open) ([], Open)"

definition one_second_request :: ModuleRequest where
  "one_second_request = example_request\<lparr>Timeout := 1\<rparr>"

text \<open>
  A stream with a valid progress line, a line that is not JSON, and a valid final response;
  a world in which every write to a pipe blocks (the pipe is full and its process does not
  read).
\<close>

definition progress_malformed_response :: child where
  "progress_malformed_response =
     example_child ([], EOF 0)
       ([(1, example_progress), (2, Malformed), (3, example_response)], EOF 4)"

definition full_pipe_world :: "child \<Rightarrow> world" where
  "full_pipe_world c = (example_world c)\<lparr>writes := (\<lambda>p. [Blocks])\<rparr>"

text \<open>A channel whose buffer is full and from which nothing receives.\<close>

definition full_sink :: sink where
  "full_sink =
     \<lparr>capacity = 1,
      buffer = [\<lparr>Stage = ''queued'', Current = 0, Total = 1, Percentage = Finite 0,
                 Message = [], Timestamp = 0\<rparr>],
      received = [], receiving = False\<rparr>"

text \<open>A plugins directory with two valid modules, one without a manifest, and a file.\<close>

definition example_manifest :: line where
  "example_manifest =
     Document (JObject
       [(''name'', JString ''youtube''), (''version'', JString ''1.0.0''),
        (''description'', JString ''downloads''),
        (''commands'', JArray [JString ''download'', JString ''info'']),
        (''dependencies'', JArray [JString ''yt-dlp''])])"

definition example_fs :: filesystem where
  "example_fs =
     \<lparr>clock = 42,
      node_at = (\<lambda>path.
        if path = ''/plugins/a/manifest.json'' \<or> path = ''/plugins/b/manifest.json''
          then File 120 example_manifest
        else if path = ''/plugins/a/__main__.py'' \<or> path = ''/plugins/b/__main__.py'' \<or>
                path = ''/plugins/bad/__main__.py''
          then File 300 Malformed
        else Missing),
      MkdirAll = (\<lambda>path. None),
      ReadDir = (\<lambda>path. Inr [(''README.md'', False), (''a'', True), (''b'', True), (''bad'', True)])\<rparr>"

text \<open>A request with an int among its arguments, a progress event and a response.\<close>

definition int_request :: ModuleRequest where
  "int_request = example_request\<lparr>Args := Some [(''quality'', GInt 720)]\<rparr>"

definition example_event :: ProgressEvent where
  "example_event =
     \<lparr>Stage = ''download'', Current = 1, Total = 2, Percentage = Finite (25 / 2),
      Message = ''half'', Timestamp = 1700000000000000000\<rparr>"

definition example_result :: ModuleResponse where
  "example_result =
     \<lparr>Success = True, Data = Some [(''file_path'', GString ''a.mp4'')], Error = [],
      Progress = Some example_event\<rparr>"


section \<open>Validation\<close>

lemma ModuleResponse_Validate_None:
  "ModuleResponse_Validate r = None \<longleftrightarrow> Success r \<or> Error r \<noteq> []"
  by (simp add: ModuleResponse_Validate_def)

lemma ProgressEvent_Validate_None:
  "ProgressEvent_Validate p = None \<longleftrightarrow>
     Stage p \<noteq> [] \<and> \<not> Total p <s 0 \<and> \<not> Current p <s 0 \<and> \<not> Total p <s Current p \<and>
     \<not> flt_less (Percentage p) (Finite 0) \<and> \<not> flt_less (Finite 100) (Percentage p)"
  by (simp add: ProgressEvent_Validate_def)





section \<open>The read loop, the exchange and the cleanup: basic facts\<close>

lemma ctx_Done_mono: "ctx_Done ctx t \<Longrightarrow> t \<le> t' \<Longrightarrow> ctx_Done ctx t'"
  by (auto simp: ctx_Done_def split: option.splits)

lemma clock_after_ge: "n \<le> clock_after n xs"
proof (induction xs arbitrary: n)
  case Nil
  show ?case by simp
next
  case (Cons x xs)
  obtain t l where x: "x = (t, l)" by (cases x)
  have "max n t \<le> clock_after (max n t) xs" by (rule Cons.IH)
  then show ?case using x by simp
qed

lemma consume_now: "streams w p = ((t, l) # rest, e) \<Longrightarrow> now (consume p w) = max (now w) t"
  by (simp add: consume_def)

lemma consume_streams:
  "streams w p = ((t, l) # rest, e) \<Longrightarrow> streams (consume p w) p = (rest, e)"
  by (simp add: consume_def)

lemma ReadString_line:
  "streams w p = ((t, l) # rest, e) \<Longrightarrow> ReadString p w = Some (Inr l, consume p w)"
  by (simp add: ReadString_def consume_def)

lemma rrwp_step_progress:
  assumes "\<not> ctx_Done ctx (now w)" "streams w p = ((t, l) # rest, e)" "progress_of l = Some pe"
  shows "readResponseWithProgress ctx p ch w =
           (case send ch (pe\<lparr>Timestamp := max (now w) t\<rparr>) of
              None \<Rightarrow> None
            | Some ch' \<Rightarrow> readResponseWithProgress ctx p ch' (consume p w))"
  using assms
  by (subst readResponseWithProgress.simps)
     (auto simp: ReadString_line consume_now progress_of_def split: sum.splits if_splits option.splits)

lemma rrwp_step_final:
  assumes "\<not> ctx_Done ctx (now w)" "streams w p = ((t, l) # rest, e)" "progress_of l = None"
  shows "readResponseWithProgress ctx p ch w = Some (parse_response l, ch, consume p w)"
  using assms
  by (subst readResponseWithProgress.simps)
     (auto simp: ReadString_line progress_of_def split: sum.splits if_splits)

lemma send_delivered: "send ch ev = Some ch' \<Longrightarrow> delivered ch' = delivered ch @ [ev]"
  by (auto simp: send_def delivered_def split: if_splits)

lemma send_room:
  "receiving ch \<or> length (buffer ch) < capacity ch \<Longrightarrow>
   \<exists>ch'. send ch ev = Some ch' \<and> capacity ch' = capacity ch \<and> receiving ch' = receiving ch \<and>
         length (buffer ch') \<le> Suc (length (buffer ch))"
  by (auto simp: send_def)

lemma rrwp_run:
  assumes "streams w p = (pre @ (t, l) # rest, e)"
    and "\<forall>x \<in> set pre. progress_of (snd x) \<noteq> None"
    and "progress_of l = None"
    and "\<not> ctx_Done ctx (clock_after (now w) pre)"
    and "receiving ch \<or> length (buffer ch) + length pre \<le> capacity ch"
  shows "\<exists>ch'. readResponseWithProgress ctx p ch w =
                 Some (parse_response l, ch', (consume p ^^ Suc (length pre)) w) \<and>
               delivered ch' = delivered ch @ stamp_all (now w) pre \<and>
               capacity ch' = capacity ch \<and> receiving ch' = receiving ch"
  using assms
proof (induction pre arbitrary: w ch)
  case Nil
  then show ?case
    by (simp add: rrwp_step_final)
next
  case (Cons x pre)
  obtain t' l' where x: "x = (t', l')" by (cases x)
  from Cons.prems(2) x obtain pe where pe: "progress_of l' = Some pe" by auto
  have st: "streams w p = ((t', l') # (pre @ (t, l) # rest), e)"
    using Cons.prems(1) x by simp
  have nd: "\<not> ctx_Done ctx (now w)"
    using Cons.prems(4) clock_after_ge[of "now w" "x # pre"] ctx_Done_mono by blast
  have room: "receiving ch \<or> length (buffer ch) < capacity ch"
    using Cons.prems(5) by auto
  from send_room[OF room, of "pe\<lparr>Timestamp := max (now w) t'\<rparr>"]
  obtain ch1 where ch1: "send ch (pe\<lparr>Timestamp := max (now w) t'\<rparr>) = Some ch1"
    "capacity ch1 = capacity ch" "receiving ch1 = receiving ch"
    "length (buffer ch1) \<le> Suc (length (buffer ch))" by blast
  have step: "readResponseWithProgress ctx p ch w = readResponseWithProgress ctx p ch1 (consume p w)"
    using rrwp_step_progress[OF nd st pe, of ch] ch1(1) by simp
  have "\<exists>ch'. readResponseWithProgress ctx p ch1 (consume p w) =
                 Some (parse_response l, ch', (consume p ^^ Suc (length pre)) (consume p w)) \<and>
               delivered ch' = delivered ch1 @ stamp_all (now (consume p w)) pre \<and>
               capacity ch' = capacity ch1 \<and> receiving ch' = receiving ch1"
  proof (rule Cons.IH)
    show "streams (consume p w) p = (pre @ (t, l) # rest, e)"
      using consume_streams[OF st] .
    show "\<forall>x\<in>set pre. progress_of (snd x) \<noteq> None"
      using Cons.prems(2) by simp
    show "progress_of l = None" by fact
    show "\<not> ctx_Done ctx (clock_after (now (consume p w)) pre)"
      using Cons.prems(4) x by (simp add: consume_now[OF st])
    show "receiving ch1 \<or> length (buffer ch1) + length pre \<le> capacity ch1"
      using Cons.prems(5) ch1 by auto
  qed
  then obtain ch' where ch': "readResponseWithProgress ctx p ch1 (consume p w) =
                 Some (parse_response l, ch', (consume p ^^ Suc (length pre)) (consume p w))"
               "delivered ch' = delivered ch1 @ stamp_all (now (consume p w)) pre"
               "capacity ch' = capacity ch1" "receiving ch' = receiving ch1" by blast
  show ?case
  proof (intro exI conjI)
    show "readResponseWithProgress ctx p ch w =
      Some (parse_response l, ch', (consume p ^^ Suc (length (x # pre))) w)"
      using step ch'(1) by (simp add: funpow_swap1)
    show "delivered ch' = delivered ch @ stamp_all (now w) (x # pre)"
      using ch'(2) send_delivered[OF ch1(1)] x pe by (simp add: consume_now[OF st])
    show "capacity ch' = capacity ch" using ch'(3) ch1 by simp
    show "receiving ch' = receiving ch" using ch'(4) ch1 by simp
  qed
qed


lemma rrwp_done:
  "ctx_Done ctx (now w) \<Longrightarrow>
   readResponseWithProgress ctx p ch w =
     Some (Inl (ErrModuleTimeout ''module execution timed out''), ch, w)"
  by (subst readResponseWithProgress.simps) simp

lemma rrwp_end:
  assumes "\<not> ctx_Done ctx (now w)" "streams w p = ([], e)"
  shows "readResponseWithProgress ctx p ch w =
     (case e of
        Open \<Rightarrow> None
      | EOF t \<Rightarrow> Some (Inl (ErrModuleError ''module process ended unexpectedly''), ch,
                      w\<lparr>now := max (now w) t, trace := trace w @ [Read p]\<rparr>)
      | Fault t err \<Rightarrow>
          Some (Inl (if cause err = io_EOF
                     then ErrModuleError ''module process ended unexpectedly''
                     else Errorf ''failed to read response'' err), ch,
                w\<lparr>now := max (now w) t, trace := trace w @ [Read p]\<rparr>))"
  using assms
  by (subst readResponseWithProgress.simps)
     (simp add: ReadString_def io_EOF_def split: stream_end.splits)

lemma consume_frame:
  "procs (consume p w) = procs w \<and> writes (consume p w) = writes w \<and>
   exec (consume p w) = exec w \<and> not_exist (consume p w) = not_exist w \<and>
   now w \<le> now (consume p w)"
  by (simp add: consume_def split: prod.splits list.splits)

lemma consume_trace:
  "streams w p = ((t, l) # rest, e) \<Longrightarrow> trace (consume p w) = trace w @ [Read p]"
  by (simp add: consume_def)

lemma clock_after_snoc: "clock_after n (xs @ [(t, l)]) = max (clock_after n xs) t"
  by (induction xs arbitrary: n) auto

text \<open>The world after a run of lines has been read from a pipe.\<close>

lemma consume_run:
  "streams w p = (xs @ rest, e) \<Longrightarrow>
   (consume p ^^ length xs) w =
     w\<lparr>now := clock_after (now w) xs, streams := (streams w)(p := (rest, e)),
       trace := trace w @ replicate (length xs) (Read p)\<rparr>"
proof (induction xs arbitrary: w)
  case Nil
  then have "(streams w)(p := (rest, e)) = streams w" by (simp add: fun_upd_idem)
  then show ?case by simp
next
  case (Cons x xs)
  obtain t l where x: "x = (t, l)" by (cases x)
  have st: "streams w p = ((t, l) # (xs @ rest), e)" using Cons.prems x by simp
  have c: "consume p w = w\<lparr>now := max (now w) t, streams := (streams w)(p := (xs @ rest, e)),
      trace := trace w @ [Read p]\<rparr>"
    using st by (simp add: consume_def)
  have "streams (consume p w) p = (xs @ rest, e)" using consume_streams[OF st] .
  note ih = Cons.IH[OF this]
  have "(consume p ^^ length (x # xs)) w = (consume p ^^ length xs) (consume p w)"
    by (simp add: funpow_swap1)
  also note ih
  finally show ?case
    using x by (simp add: c fun_eq_iff)
qed

text \<open>What a returning run of the loop leaves behind.\<close>

lemma rrwp_returns:
  "readResponseWithProgress ctx p ch w = Some (res, ch', w') \<Longrightarrow>
   \<exists>k n. k \<le> length (fst (streams w p)) \<and>
     (\<forall>x \<in> set (take k (fst (streams w p))). progress_of (snd x) \<noteq> None) \<and>
     delivered ch' = delivered ch @ stamp_all (now w) (take k (fst (streams w p))) \<and>
     clock_after (now w) (take k (fst (streams w p))) \<le> now w' \<and>
     procs w' = procs w \<and> trace w' = trace w @ replicate n (Read p)"
proof (induction xs \<equiv> "fst (streams w p)" arbitrary: w ch)
  case Nil
  obtain e where st: "streams w p = ([], e)"
    using Nil.hyps by (cases "streams w p") simp
  show ?case
  proof (cases "ctx_Done ctx (now w)")
    case True
    with Nil.prems have "ch' = ch" "w' = w" by (simp_all add: rrwp_done)
    then show ?thesis by (intro exI[of _ 0]) simp
  next
    case False
    from Nil.prems rrwp_end[OF False st, of ch]
    have "ch' = ch \<and> (\<exists>t. w' = w\<lparr>now := max (now w) t, trace := trace w @ [Read p]\<rparr>)"
      by (auto split: stream_end.splits)
    then obtain t where "ch' = ch" "w' = w\<lparr>now := max (now w) t, trace := trace w @ [Read p]\<rparr>"
      by blast
    then show ?thesis
      by - (rule exI[of _ 0], rule exI[of _ 1], simp)
  qed
next
  case (Cons x xs)
  obtain t l where x: "x = (t, l)" by (cases x)
  obtain e where st: "streams w p = ((t, l) # xs, e)"
    using Cons.hyps(2) x by (cases "streams w p") simp
  show ?case
  proof (cases "ctx_Done ctx (now w)")
    case True
    with Cons.prems have "ch' = ch" "w' = w" by (simp_all add: rrwp_done)
    then show ?thesis by (intro exI[of _ 0]) simp
  next
    case False
    show ?thesis
    proof (cases "progress_of l")
      case None
      from Cons.prems rrwp_step_final[OF False st None, of ch]
      have "ch' = ch" "w' = consume p w" by simp_all
      then show ?thesis
        using consume_frame[of p w] consume_trace[OF st]
        by - (rule exI[of _ 0], rule exI[of _ 1], simp)
    next
      case (Some pe)
      from Cons.prems rrwp_step_progress[OF False st Some, of ch]
      obtain ch1 where ch1: "send ch (pe\<lparr>Timestamp := max (now w) t\<rparr>) = Some ch1"
        and run: "readResponseWithProgress ctx p ch1 (consume p w) = Some (res, ch', w')"
        by (auto split: option.splits)
      have xs: "xs = fst (streams (consume p w) p)"
        using consume_streams[OF st] by simp
      from Cons.hyps(1)[OF xs run] obtain k n where
        k: "k \<le> length xs"
        "\<forall>x\<in>set (take k xs). progress_of (snd x) \<noteq> None"
        "delivered ch' = delivered ch1 @ stamp_all (now (consume p w)) (take k xs)"
        "clock_after (now (consume p w)) (take k xs) \<le> now w'"
        "procs w' = procs (consume p w)"
        "trace w' = trace (consume p w) @ replicate n (Read p)"
        unfolding xs[symmetric] by blast
      show ?thesis
      proof (rule exI[of _ "Suc k"], rule exI[of _ "Suc n"], intro conjI)
        show "Suc k \<le> length (fst (streams w p))" using k(1) st by simp
        show "\<forall>x\<in>set (take (Suc k) (fst (streams w p))). progress_of (snd x) \<noteq> None"
          using k(2) st Some by simp
        show "delivered ch' = delivered ch @ stamp_all (now w) (take (Suc k) (fst (streams w p)))"
          using k(3) send_delivered[OF ch1] st Some by (simp add: consume_now[OF st])
        show "clock_after (now w) (take (Suc k) (fst (streams w p))) \<le> now w'"
          using k(4) st by (simp add: consume_now[OF st])
        show "procs w' = procs w" using k(5) consume_frame[of p w] by simp
        show "trace w' = trace w @ replicate (Suc n) (Read p)"
          using k(6) consume_trace[OF st] by (simp add: replicate_append_same)
      qed
    qed
  qed
qed


lemma launch_ok:
  "exec w (pythonPath b) path = Inr c \<Longrightarrow>
   launchPythonProcess b path w =
     (Inr (handle c, StdinPipe (handle c), StderrPipe (handle c)), started c w)"
  by (simp add: launchPythonProcess_def started_def)

lemma started_simps [simp]:
  "now (started c w) = now w"
  "trace (started c w) = trace w @ [Start (handle c)]"
  "writes (started c w) = writes w"
  "streams (started c w) (StderrPipe (handle c)) = stderr_stream c"
  "procs (started c w) (handle c) = Some (if still_running c then Running else Exited)"
  by (simp_all add: started_def)

lemma Execute_launched:
  assumes "ModuleRequest_Validate req0 = Inr req" "findModule b m w = Inr path"
    "exec w (pythonPath b) path = Inr c"
  shows "Execute b ctx m req0 w =
     (case exchange (WithTimeout ctx (Timeout req) (now w)) (StdinPipe (handle c))
             (StderrPipe (handle c)) req (started c w) of
        None \<Rightarrow> None
      | Some (result, w3) \<Rightarrow>
          map_option (\<lambda>(b2, w4). (result, b2, w4))
            (deferred_cleanup (m @ ''-'' @ format_int (now w)) (handle c)
               (b\<lparr>processes := (processes b)(m @ ''-'' @ format_int (now w) \<mapsto> handle c)\<rparr>, w3)))"
  using assms
  by (simp add: Execute_def launch_ok exchange_def Let_def
           cong: prod.case_cong option.case_cong)

lemma ExecuteWithProgress_launched:
  assumes "ModuleRequest_Validate req0 = Inr req" "findModule b m w = Inr path"
    "exec w (pythonPath b) path = Inr c"
  shows "ExecuteWithProgress b ctx m req0 ch w =
     (case exchange_progress (WithTimeout ctx (Timeout req) (now w)) (StdinPipe (handle c))
             (StderrPipe (handle c)) req ch (started c w) of
        None \<Rightarrow> None
      | Some (result, ch', w3) \<Rightarrow>
          map_option (\<lambda>(b2, w4). (result, ch', b2, w4))
            (deferred_cleanup (m @ ''-'' @ format_int (now w)) (handle c)
               (b\<lparr>processes := (processes b)(m @ ''-'' @ format_int (now w) \<mapsto> handle c)\<rparr>, w3)))"
  using assms
  by (simp add: ExecuteWithProgress_def launch_ok exchange_progress_def Let_def
           cong: prod.case_cong option.case_cong)

lemma pipe_call_frame:
  "pipe_call c p w = Some (r, w') \<Longrightarrow>
   now w' = now w \<and> procs w' = procs w \<and> streams w' = streams w \<and> trace w' = trace w @ [c]"
  by (auto simp: pipe_call_def split: list.splits outcome.splits)

lemma sendRequest_frame:
  assumes "sendRequest p req w = Some (r, w')"
  shows "now w' = now w \<and> procs w' = procs w \<and> streams w' = streams w \<and>
     (\<exists>k data. trace w' = trace w @ take k (request_ops p data) \<and>
        (ModuleRequest_ToJSON req = Inr data \<or> k = 0) \<and> (r = None \<longrightarrow> k = 3))"
proof (cases "ModuleRequest_ToJSON req")
  case (Inl err)
  with assms have "w' = w" "r = Some err" by (simp_all add: sendRequest_def)
  then show ?thesis by (auto intro!: exI[of _ 0])
next
  case (Inr data)
  from assms Inr obtain r1 w1 where c1: "pipe_call (Write p (JSONText data)) p w = Some (r1, w1)"
    by (auto simp: sendRequest_def split: option.splits)
  note f1 = pipe_call_frame[OF c1]
  show ?thesis
  proof (cases r1)
    case (Some e)
    with assms Inr c1 have "w' = w1" "r = Some e" by (simp_all add: sendRequest_def)
    then show ?thesis using f1 Inr
      by (auto intro!: exI[of _ 1] exI[of _ data] simp: request_ops_def)
  next
    case None
    note r1 = this
    from assms Inr c1 r1 obtain r2 w2 where
      c2: "pipe_call (Write p (Bytes [CHR 0x0A])) p w1 = Some (r2, w2)"
      by (auto simp: sendRequest_def split: option.splits)
    note f2 = pipe_call_frame[OF c2]
    show ?thesis
    proof (cases r2)
      case (Some e)
      with assms Inr c1 c2 r1 have "w' = w2" "r = Some e" by (simp_all add: sendRequest_def)
      then show ?thesis using f1 f2 Inr
        by (auto intro!: exI[of _ 2] exI[of _ data] simp: request_ops_def numeral_2_eq_2)
    next
      case None
      with assms Inr c1 c2 r1 have c3: "pipe_call (Close p) p w2 = Some (r, w')"
        by (simp add: sendRequest_def)
      note f3 = pipe_call_frame[OF c3]
      show ?thesis using f1 f2 f3 Inr
        by (auto intro!: exI[of _ 3] exI[of _ data] simp: request_ops_def)
    qed
  qed
qed

lemma sendRequest_ok:
  "ModuleRequest_ToJSON req = Inr data \<Longrightarrow> writes w p = [] \<Longrightarrow>
   sendRequest p req w = Some (None, w\<lparr>trace := trace w @ request_ops p data\<rparr>)"
  by (simp add: sendRequest_def pipe_call_def request_ops_def)

text \<open>A request that was sent whole leaves the three calls of the send, and nothing else.\<close>

lemma sendRequest_sent:
  assumes "sendRequest p req w = Some (None, w')"
  shows "now w' = now w \<and> procs w' = procs w \<and> streams w' = streams w \<and>
     (\<exists>data. ModuleRequest_ToJSON req = Inr data \<and> trace w' = trace w @ request_ops p data)"
proof -
  from sendRequest_frame[OF assms] obtain k data where
    f: "now w' = now w" "procs w' = procs w" "streams w' = streams w"
       "trace w' = trace w @ take k (request_ops p data)"
       "ModuleRequest_ToJSON req = Inr data \<or> k = 0" "k = 3"
    by auto
  then have "ModuleRequest_ToJSON req = Inr data" "trace w' = trace w @ request_ops p data"
    by (simp_all add: request_ops_def)
  with f(1-3) show ?thesis by blast
qed

text \<open>The deferred function always returns; this is the state it leaves.\<close>

lemma deferred_cleanup_eq:
  "deferred_cleanup pid cmd (b, w) =
     Some (b\<lparr>processes := (processes b)(pid := None)\<rparr>,
           w\<lparr>procs := (case procs w cmd of None \<Rightarrow> procs w | Some s \<Rightarrow> (procs w)(cmd \<mapsto> Reaped)),
             trace := trace w @ [Kill cmd, Wait cmd]\<rparr>)"
  by (cases "procs w cmd"; cases "the (procs w cmd)")
     (auto simp: deferred_cleanup_def Process_Kill_def Cmd_Wait_def fun_upd_idem)

lemma deferred_cleanup_returns:
  "\<exists>w'. deferred_cleanup pid cmd (b, w) =
            Some (b\<lparr>processes := (processes b)(pid := None)\<rparr>, w') \<and>
         trace w' = trace w @ [Kill cmd, Wait cmd] \<and> now w' = now w \<and>
         procs w' = (case procs w cmd of None \<Rightarrow> procs w | Some s \<Rightarrow> (procs w)(cmd \<mapsto> Reaped))"
  by (cases "procs w cmd"; cases "the (procs w cmd)")
     (auto simp: deferred_cleanup_def Process_Kill_def Cmd_Wait_def fun_upd_idem)

lemma readResponse_frame:
  assumes "readResponse ctx p w = Some (res, w')"
  shows "procs w' = procs w \<and> now w \<le> now w' \<and> (\<exists>n\<le>1. trace w' = trace w @ replicate n (Read p))"
proof (cases "ctx_Done ctx (now w)")
  case True
  with assms have "w' = w" by (simp add: readResponse_def)
  then show ?thesis by (auto intro!: exI[of _ 0])
next
  case False
  with assms obtain x where rs: "ReadString p w = Some (x, w')"
    by (auto simp: readResponse_def split: option.splits sum.splits if_splits)
  then have "procs w' = procs w \<and> now w \<le> now w' \<and> trace w' = trace w @ [Read p]"
    by (auto simp: ReadString_def split: prod.splits list.splits stream_end.splits)
  then show ?thesis by (auto intro!: exI[of _ 1])
qed

lemma lifecycle_request_ops: "filter is_lifecycle (take k (request_ops p data)) = []"
  by (auto simp: filter_empty_conv request_ops_def dest!: in_set_takeD)

lemma io_request_ops:
  "filter (\<lambda>x. \<not> is_lifecycle x) (take k (request_ops p data)) = take k (request_ops p data)"
  by (auto simp: filter_id_conv request_ops_def dest!: in_set_takeD)

lemma exchange_frame:
  assumes "exchange ctx pin perr req w0 = Some (res, w3)"
  shows "procs w3 = procs w0 \<and> now w0 \<le> now w3 \<and>
     (\<exists>k n data. trace w3 = trace w0 @ take k (request_ops pin data) @ replicate n (Read perr) \<and>
        (ModuleRequest_ToJSON req = Inr data \<or> k = 0) \<and> (k = 3 \<or> n = 0) \<and> n \<le> 1)"
proof -
  from assms obtain r w1 where sr: "sendRequest pin req w0 = Some (r, w1)"
    by (auto simp: exchange_def exchange_progress_def split: option.splits)
  from sendRequest_frame[OF sr] obtain k data where
    f1: "now w1 = now w0" "procs w1 = procs w0"
      "trace w1 = trace w0 @ take k (request_ops pin data)"
      "ModuleRequest_ToJSON req = Inr data \<or> k = 0" "r = None \<longrightarrow> k = 3"
    by blast
  show ?thesis
  proof (cases r)
    case (Some err)
    with assms sr have "w3 = w1" by (simp add: exchange_def)
    then show ?thesis using f1
      by - (intro conjI, simp, simp, rule exI[of _ k], rule exI[of _ "0::nat"], rule exI[of _ data], simp)
  next
    case None
    with assms sr obtain x where rr: "readResponse ctx perr w1 = Some (x, w3)"
      by (auto simp: exchange_def split: option.splits sum.splits)
    from readResponse_frame[OF rr] obtain n where
      "procs w3 = procs w1" "now w1 \<le> now w3" "n \<le> 1" "trace w3 = trace w1 @ replicate n (Read perr)"
      by blast
    then show ?thesis using f1 None
      by - (intro conjI, simp, simp, rule exI[of _ k], rule exI[of _ n], rule exI[of _ data], simp)
  qed
qed

lemma exchange_progress_frame:
  assumes "exchange_progress ctx pin perr req ch w0 = Some (res, ch', w3)"
  shows "procs w3 = procs w0 \<and> now w0 \<le> now w3 \<and>
     (\<exists>k n data. trace w3 = trace w0 @ take k (request_ops pin data) @ replicate n (Read perr) \<and>
        (ModuleRequest_ToJSON req = Inr data \<or> k = 0) \<and> (k = 3 \<or> n = 0))"
proof -
  from assms obtain r w1 where sr: "sendRequest pin req w0 = Some (r, w1)"
    by (auto simp: exchange_def exchange_progress_def split: option.splits)
  from sendRequest_frame[OF sr] obtain k data where
    f1: "now w1 = now w0" "procs w1 = procs w0"
      "trace w1 = trace w0 @ take k (request_ops pin data)"
      "ModuleRequest_ToJSON req = Inr data \<or> k = 0" "r = None \<longrightarrow> k = 3"
    by blast
  show ?thesis
  proof (cases r)
    case (Some err)
    with assms sr have "w3 = w1" by (simp add: exchange_progress_def)
    then show ?thesis using f1
      by - (intro conjI, simp, simp, rule exI[of _ k], rule exI[of _ "0::nat"], rule exI[of _ data], simp)
  next
    case None
    with assms sr obtain x where rr: "readResponseWithProgress ctx perr ch w1 = Some (x, ch', w3)"
      by (auto simp: exchange_progress_def split: option.splits sum.splits)
    from rrwp_returns[OF rr] obtain n where
      "procs w3 = procs w1" "now w1 \<le> now w3" "trace w3 = trace w1 @ replicate n (Read perr)"
      using clock_after_ge order_trans by blast
    then show ?thesis using f1 None
      by - (intro conjI, simp, simp, rule exI[of _ k], rule exI[of _ n], rule exI[of _ data], simp)
  qed
qed

lemma torn_down_intro:
  assumes "deferred_cleanup (m @ ''-'' @ format_int (now w)) (handle c)
            (b\<lparr>processes := (processes b)(m @ ''-'' @ format_int (now w) \<mapsto> handle c)\<rparr>, w3) = Some (b', w')"
    and "procs w3 = procs (started c w)"
    and "trace w3 = trace (started c w) @ take k (request_ops pin data) @ replicate n (Read perr)"
  shows "torn_down b w c m b' w'"
proof -
  from deferred_cleanup_returns[of "m @ ''-'' @ format_int (now w)" "handle c"
      "b\<lparr>processes := (processes b)(m @ ''-'' @ format_int (now w) \<mapsto> handle c)\<rparr>" w3] assms(1)
  have b': "b' = b\<lparr>processes := (processes b)(m @ ''-'' @ format_int (now w) := None)\<rparr>"
    and tr: "trace w' = trace w3 @ [Kill (handle c), Wait (handle c)]"
    and pr: "procs w' = (case procs w3 (handle c) of None \<Rightarrow> procs w3
                         | Some s \<Rightarrow> (procs w3)(handle c \<mapsto> Reaped))"
    by auto
  have "procs w' (handle c) = Some Reaped"
    using pr assms(2) by simp
  moreover have "trace w' = trace w @ (Start (handle c) # take k (request_ops pin data) @ replicate n (Read perr))
       @ [Kill (handle c), Wait (handle c)]"
    using tr assms(3) by simp
  moreover have "lifecycle ((Start (handle c) # take k (request_ops pin data) @ replicate n (Read perr))
       @ [Kill (handle c), Wait (handle c)]) = [Start (handle c), Kill (handle c), Wait (handle c)]"
    by (simp add: lifecycle_def lifecycle_request_ops)
  moreover have "processes b' = (processes b)(m @ ''-'' @ format_int (now w) := None)"
    using b' by simp
  ultimately show ?thesis
    unfolding torn_down_def by blast
qed

text \<open>
  Every call of \<open>Execute\<close> or \<open>ExecuteWithProgress\<close> whose launch step succeeds and which
  returns, whatever the result (a response, a failed send, an invalid or malformed
  response, the end of the stream, a deadline found elapsed), has started exactly one
  process and has killed and waited for that process once, as its last calls; the process
  is reaped, and the entry of the call in the process table is removed. Running the
  deferred function a second time, on a process that is already dead, changes nothing but
  the record of the calls.
\<close>

lemma returning_call_is_torn_down:
  assumes "ModuleRequest_Validate req0 = Inr req" and "findModule b m w = Inr path"
    and "exec w (pythonPath b) path = Inr c"
  shows "(Execute b ctx m req0 w = Some (res, b', w') \<longrightarrow> torn_down b w c m b' w') \<and>
         (ExecuteWithProgress b ctx m req0 ch w = Some (res2, ch2, b2, w2) \<longrightarrow> torn_down b w c m b2 w2) \<and>
         (\<exists>b1 w1. deferred_cleanup pid cmd (b0, w0) = Some (b1, w1) \<and>
            deferred_cleanup pid cmd (b1, w1) =
              Some (b1, w1\<lparr>trace := trace w1 @ [Kill cmd, Wait cmd]\<rparr>))"
proof (intro conjI impI)
  assume run: "Execute b ctx m req0 w = Some (res, b', w')"
  from run Execute_launched[OF assms, of ctx] obtain w3 where
    ex: "exchange (WithTimeout ctx (Timeout req) (now w)) (StdinPipe (handle c))
           (StderrPipe (handle c)) req (started c w) = Some (res, w3)"
    and dc: "deferred_cleanup (m @ ''-'' @ format_int (now w)) (handle c)
            (b\<lparr>processes := (processes b)(m @ ''-'' @ format_int (now w) \<mapsto> handle c)\<rparr>, w3) = Some (b', w')"
    by (auto split: option.splits)
  from exchange_frame[OF ex] obtain k n data where
    "procs w3 = procs (started c w)"
    "trace w3 = trace (started c w) @ take k (request_ops (StdinPipe (handle c)) data)
        @ replicate n (Read (StderrPipe (handle c)))"
    by blast
  then show "torn_down b w c m b' w'"
    using torn_down_intro[OF dc] by blast
next
  assume run: "ExecuteWithProgress b ctx m req0 ch w = Some (res2, ch2, b2, w2)"
  from run ExecuteWithProgress_launched[OF assms, of ctx ch] obtain w3 where
    ex: "exchange_progress (WithTimeout ctx (Timeout req) (now w)) (StdinPipe (handle c))
           (StderrPipe (handle c)) req ch (started c w) = Some (res2, ch2, w3)"
    and dc: "deferred_cleanup (m @ ''-'' @ format_int (now w)) (handle c)
            (b\<lparr>processes := (processes b)(m @ ''-'' @ format_int (now w) \<mapsto> handle c)\<rparr>, w3) = Some (b2, w2)"
    by (auto split: option.splits)
  from exchange_progress_frame[OF ex] obtain k n data where
    "procs w3 = procs (started c w)"
    "trace w3 = trace (started c w) @ take k (request_ops (StdinPipe (handle c)) data)
        @ replicate n (Read (StderrPipe (handle c)))"
    by blast
  then show "torn_down b w c m b2 w2"
    using torn_down_intro[OF dc] by blast
next
  obtain w1 where w1: "deferred_cleanup pid cmd (b0, w0) =
            Some (b0\<lparr>processes := (processes b0)(pid := None)\<rparr>, w1)"
    "procs w1 = (case procs w0 cmd of None \<Rightarrow> procs w0 | Some s \<Rightarrow> (procs w0)(cmd \<mapsto> Reaped))"
    using deferred_cleanup_returns[of pid cmd b0 w0] by blast
  have "procs w1 cmd \<noteq> Some Running \<and> procs w1 cmd \<noteq> Some Exited"
    using w1(2) by (auto split: option.splits)
  then have "deferred_cleanup pid cmd (b0\<lparr>processes := (processes b0)(pid := None)\<rparr>, w1) =
      Some (b0\<lparr>processes := (processes b0)(pid := None)\<rparr>, w1\<lparr>trace := trace w1 @ [Kill cmd, Wait cmd]\<rparr>)"
    by (cases "procs w1 cmd"; cases "the (procs w1 cmd)")
       (auto simp: deferred_cleanup_def Process_Kill_def Cmd_Wait_def)
  with w1(1) show "\<exists>b1 w1. deferred_cleanup pid cmd (b0, w0) = Some (b1, w1) \<and>
            deferred_cleanup pid cmd (b1, w1) =
              Some (b1, w1\<lparr>trace := trace w1 @ [Kill cmd, Wait cmd]\<rparr>)"
    by blast
qed

text \<open>
  C1. The claim is that every call whose launch step succeeds ends the process it
  started, on every path, among them a module that never responds and a deadline that
  elapses. The kill and the wait are in the deferred function, which runs when the body
  returns, and the body waits without a bound in two places before its return. When the
  request has been sent and the module writes nothing and keeps its standard error open,
  the read of the first line does not return, whatever the deadline: neither \<open>Execute\<close> nor
  \<open>ExecuteWithProgress\<close> returns, and the state they stay in has the process as it was
  started, no kill and no wait among the calls made, and the entry of the process table
  in place. When a write of the request blocks, the same holds before any read.
\<close>

theorem unanswered_call_never_ends_its_process:
  assumes "ModuleRequest_Validate req0 = Inr req" and "findModule b m w = Inr path"
    and "exec w (pythonPath b) path = Inr c"
  shows "(sendRequest (StdinPipe (handle c)) req (started c w) = Some (None, w1) \<and>
          stderr_stream c = ([], Open) \<and>
          \<not> ctx_Done (WithTimeout ctx (Timeout req) (now w)) (now w) \<longrightarrow>
            Execute b ctx m req0 w = None \<and> ExecuteWithProgress b ctx m req0 ch w = None \<and>
            ReadString (StderrPipe (handle c)) w1 = None \<and>
            procs w1 (handle c) = Some (if still_running c then Running else Exited) \<and>
            lifecycle (trace w1) = lifecycle (trace w) @ [Start (handle c)]) \<and>
         (sendRequest (StdinPipe (handle c)) req (started c w) = None \<longrightarrow>
            Execute b ctx m req0 w = None \<and> ExecuteWithProgress b ctx m req0 ch w = None \<and>
            procs (started c w) (handle c) = Some (if still_running c then Running else Exited) \<and>
            lifecycle (trace (started c w)) = lifecycle (trace w) @ [Start (handle c)])"
proof (intro conjI impI)
  assume a: "sendRequest (StdinPipe (handle c)) req (started c w) = Some (None, w1) \<and>
          stderr_stream c = ([], Open) \<and>
          \<not> ctx_Done (WithTimeout ctx (Timeout req) (now w)) (now w)"
  then have sr: "sendRequest (StdinPipe (handle c)) req (started c w) = Some (None, w1)" by simp
  from sendRequest_sent[OF sr] obtain data where
    f: "now w1 = now w" "procs w1 = procs (started c w)" "streams w1 = streams (started c w)"
       "trace w1 = trace w @ Start (handle c) # request_ops (StdinPipe (handle c)) data"
    by auto
  have st: "streams w1 (StderrPipe (handle c)) = ([], Open)" using a f by simp
  have nd: "\<not> ctx_Done (WithTimeout ctx (Timeout req) (now w)) (now w1)" using a f by simp
  show rs: "ReadString (StderrPipe (handle c)) w1 = None"
    using st by (simp add: ReadString_def)
  have "exchange (WithTimeout ctx (Timeout req) (now w)) (StdinPipe (handle c))
          (StderrPipe (handle c)) req (started c w) = None"
    using nd rs by (simp add: exchange_def sr readResponse_def)
  then show "Execute b ctx m req0 w = None"
    by (simp add: Execute_launched[OF assms])
  have "exchange_progress (WithTimeout ctx (Timeout req) (now w)) (StdinPipe (handle c))
          (StderrPipe (handle c)) req ch (started c w) = None"
    using nd st by (simp add: exchange_progress_def sr rrwp_end)
  then show "ExecuteWithProgress b ctx m req0 ch w = None"
    by (simp add: ExecuteWithProgress_launched[OF assms])
  show "procs w1 (handle c) = Some (if still_running c then Running else Exited)"
    using f by simp
  show "lifecycle (trace w1) = lifecycle (trace w) @ [Start (handle c)]"
    using f(4) lifecycle_request_ops[of 3 "StdinPipe (handle c)" data]
    by (simp add: lifecycle_def request_ops_def)
next
  assume sr: "sendRequest (StdinPipe (handle c)) req (started c w) = None"
  then show "Execute b ctx m req0 w = None"
    by (simp add: Execute_launched[OF assms] exchange_def)
  from sr show "ExecuteWithProgress b ctx m req0 ch w = None"
    by (simp add: ExecuteWithProgress_launched[OF assms] exchange_progress_def)
  show "procs (started c w) (handle c) = Some (if still_running c then Running else Exited)"
    by simp
  show "lifecycle (trace (started c w)) = lifecycle (trace w) @ [Start (handle c)]"
    by (simp add: lifecycle_def)
qed

lemma deferred_cleanup_now:
  "deferred_cleanup pid cmd (b, w) = Some (b', w') \<Longrightarrow> now w' = now w"
  using deferred_cleanup_returns[of pid cmd b w] by auto

lemma ProgressEvent_member_finite:
  assumes "ProgressEvent_member k v p = Inr p'" "\<exists>r. Percentage p = Finite r"
  shows "\<exists>r. Percentage p' = Finite r"
proof (cases "fold_name k = ''percentage''")
  case True
  with assms(1) obtain x where x: "decode_float64 v (Percentage p) = Inr x" "p' = p\<lparr>Percentage := x\<rparr>"
    by (auto simp: ProgressEvent_member_def Let_def map_sum_def split: sum.splits)
  have "\<exists>r. x = Finite r"
  proof (cases "v = JNull")
    case True
    with x(1) assms(2) show ?thesis by simp
  next
    case False
    then have "decode_float64 v (Percentage p) =
        (case float64_of_literal v of Some f \<Rightarrow> Inr f | None \<Rightarrow> Inl UnmarshalTypeError)"
      by (cases v) simp_all
    with x(1) have "float64_of_literal v = Some x"
      by (auto split: option.splits)
    then show ?thesis
      by (auto simp: float64_of_literal_def split: json.splits float64.splits if_splits)
  qed
  with x(2) show ?thesis by simp
next
  case False
  with assms show ?thesis
    by (auto simp: ProgressEvent_member_def Let_def map_sum_def split: sum.splits if_splits)
qed

lemma decode_members_finite:
  "decode_members ProgressEvent_member kvs p = Inr p' \<Longrightarrow> \<exists>r. Percentage p = Finite r \<Longrightarrow>
   \<exists>r. Percentage p' = Finite r"
proof (induction kvs arbitrary: p)
  case Nil
  then show ?case by simp
next
  case (Cons kv kvs)
  obtain k v where kv: "kv = (k, v)" by (cases kv)
  from Cons.prems(1) kv obtain p1 where
    p1: "ProgressEvent_member k v p = Inr p1" "decode_members ProgressEvent_member kvs p1 = Inr p'"
    by (auto split: sum.splits)
  show ?case
    using Cons.IH[OF p1(2)] ProgressEvent_member_finite[OF p1(1) Cons.prems(2)] by blast
qed

lemma ProgressEventFromJSON_finite:
  assumes "ProgressEventFromJSON l = Inr p"
  shows "\<exists>r. Percentage p = Finite r"
proof (cases l)
  case Malformed
  with assms show ?thesis by (simp add: ProgressEventFromJSON_def Unmarshal_def)
next
  case (Document j)
  have z: "\<exists>r. Percentage zero_ProgressEvent = Finite r"
    by (simp add: zero_ProgressEvent_def)
  show ?thesis
  proof (cases j)
    case JNull
    with assms Document z show ?thesis
      by (simp add: ProgressEventFromJSON_def Unmarshal_def)
  next
    case (JObject kvs)
    with assms Document have "decode_members ProgressEvent_member kvs zero_ProgressEvent = Inr p"
      by (simp add: ProgressEventFromJSON_def Unmarshal_def)
    from decode_members_finite[OF this z] show ?thesis .
  qed (use assms Document in \<open>simp_all add: ProgressEventFromJSON_def Unmarshal_def\<close>)
qed

lemma progress_of_valid:
  assumes "progress_of l = Some p"
  shows "valid_event (p\<lparr>Timestamp := ts\<rparr>)"
proof -
  from assms have dec: "ProgressEventFromJSON l = Inr p" and ok: "ProgressEvent_Validate p = None"
    by (auto simp: progress_of_def split: sum.splits if_splits)
  from ProgressEventFromJSON_finite[OF dec] obtain r where r: "Percentage p = Finite r" by blast
  from ok r show ?thesis
    by (simp add: ProgressEvent_Validate_None valid_event_def word_sless_alt not_less)
qed

lemma stamp_all_elem:
  "ev \<in> set (stamp_all n xs) \<Longrightarrow>
   \<exists>t l p. (t, l) \<in> set xs \<and> progress_of l = Some p \<and> ev = p\<lparr>Timestamp := Timestamp ev\<rparr> \<and>
     max n t \<le> Timestamp ev \<and> Timestamp ev \<le> clock_after n xs"
proof (induction xs arbitrary: n)
  case Nil
  then show ?case by simp
next
  case (Cons x xs)
  obtain t l where x: "x = (t, l)" by (cases x)
  show ?case
  proof (cases "ev \<in> set (stamp_all (max n t) xs)")
    case True
    from Cons.IH[OF True] obtain t' l' p where
      "(t', l') \<in> set xs" "progress_of l' = Some p" "ev = p\<lparr>Timestamp := Timestamp ev\<rparr>"
      "max (max n t) t' \<le> Timestamp ev" "Timestamp ev \<le> clock_after (max n t) xs"
      by blast
    then show ?thesis using x
      by (intro exI[of _ t'] exI[of _ l'] exI[of _ p]) auto
  next
    case False
    with Cons.prems x obtain p where p: "progress_of l = Some p" "ev = p\<lparr>Timestamp := max n t\<rparr>"
      by (auto split: option.splits)
    then have "Timestamp ev = max n t" by simp
    with p show ?thesis using x clock_after_ge[of "max n t" xs]
      by (intro exI[of _ t] exI[of _ l] exI[of _ p]) auto
  qed
qed

lemma ExecuteWithProgress_cases:
  assumes "ExecuteWithProgress b ctx m req0 ch w = Some (res, ch', b', w')"
  shows "ch' = ch \<or>
     (\<exists>ctx1 p w1 x w3. readResponseWithProgress ctx1 p ch w1 = Some (x, ch', w3) \<and>
        now w1 = now w \<and> now w' = now w3)"
proof (cases "ModuleRequest_Validate req0")
  case (Inl err)
  with assms show ?thesis by (simp add: ExecuteWithProgress_def)
next
  case (Inr req)
  note v = this
  show ?thesis
  proof (cases "findModule b m w")
    case (Inl err)
    with assms v show ?thesis by (simp add: ExecuteWithProgress_def)
  next
    case (Inr path)
    note f = this
    show ?thesis
    proof (cases "exec w (pythonPath b) path")
      case (Inl err)
      with assms v f show ?thesis
        by (simp add: ExecuteWithProgress_def launchPythonProcess_def)
    next
      case (Inr c)
      from assms ExecuteWithProgress_launched[OF v f Inr, of ctx ch] obtain w3 where
        ex: "exchange_progress (WithTimeout ctx (Timeout req) (now w)) (StdinPipe (handle c))
               (StderrPipe (handle c)) req ch (started c w) = Some (res, ch', w3)"
        and dc: "deferred_cleanup (m @ ''-'' @ format_int (now w)) (handle c)
            (b\<lparr>processes := (processes b)(m @ ''-'' @ format_int (now w) \<mapsto> handle c)\<rparr>, w3) = Some (b', w')"
        by (auto split: option.splits)
      from deferred_cleanup_now[OF dc] have nw: "now w' = now w3" .
      from ex obtain r w1 where sr: "sendRequest (StdinPipe (handle c)) req (started c w) = Some (r, w1)"
        by (auto simp: exchange_progress_def split: option.splits)
      from sendRequest_frame[OF sr] have n1: "now w1 = now w" by simp
      show ?thesis
      proof (cases r)
        case (Some err)
        with ex sr show ?thesis by (simp add: exchange_progress_def)
      next
        case None
        with ex sr obtain x where
          "readResponseWithProgress (WithTimeout ctx (Timeout req) (now w)) (StderrPipe (handle c)) ch w1
             = Some (x, ch', w3)"
          by (auto simp: exchange_progress_def split: option.splits sum.splits)
        with n1 nw show ?thesis by blast
      qed
    qed
  qed
qed

text \<open>
  C10. Every event that \<open>ExecuteWithProgress\<close> adds to the progress sink is valid (a
  stage that is not empty, \<open>0 \<le> current \<le> total\<close>, a percentage in \<open>[0, 100]\<close>); it is
  the decoded event of a line, with its \<open>Timestamp\<close> replaced by the time of receipt: the
  clock after the line was read, between the start and the end of the call. A line that
  decodes as a progress event which fails \<open>Validate\<close> is not delivered; the loop returns
  it parsed as the response, and the sink is as before.
\<close>

theorem delivered_events_valid_and_stamped:
  "(ExecuteWithProgress b ctx m req0 ch w = Some (res, ch', b', w') \<longrightarrow>
      (\<exists>evs. delivered ch' = delivered ch @ evs \<and>
         (\<forall>ev \<in> set evs. valid_event ev \<and> now w \<le> Timestamp ev \<and> Timestamp ev \<le> now w' \<and>
            (\<exists>l p. progress_of l = Some p \<and> ev = p\<lparr>Timestamp := Timestamp ev\<rparr>)))) \<and>
   (readResponseWithProgress ctx1 pp ch w1 = Some (res1, ch1, w2) \<longrightarrow>
      (\<exists>k. delivered ch1 = delivered ch @ stamp_all (now w1) (take k (fst (streams w1 pp))))) \<and>
   (\<not> ctx_Done ctx1 (now w1) \<and> streams w1 pp = ((t, l) # rest, e) \<and>
    ProgressEventFromJSON l = Inr p \<and> ProgressEvent_Validate p \<noteq> None \<longrightarrow>
      readResponseWithProgress ctx1 pp ch w1 = Some (parse_response l, ch, consume pp w1))"
proof (intro conjI impI)
  assume run: "ExecuteWithProgress b ctx m req0 ch w = Some (res, ch', b', w')"
  from ExecuteWithProgress_cases[OF run]
  show "\<exists>evs. delivered ch' = delivered ch @ evs \<and>
         (\<forall>ev \<in> set evs. valid_event ev \<and> now w \<le> Timestamp ev \<and> Timestamp ev \<le> now w' \<and>
            (\<exists>l p. progress_of l = Some p \<and> ev = p\<lparr>Timestamp := Timestamp ev\<rparr>))"
  proof
    assume "ch' = ch"
    then show ?thesis by (intro exI[of _ "[]"]) simp
  next
    assume "\<exists>ctx1 p w1 x w3. readResponseWithProgress ctx1 p ch w1 = Some (x, ch', w3) \<and>
        now w1 = now w \<and> now w' = now w3"
    then obtain ctx1 p w1 x w3 where
      rr: "readResponseWithProgress ctx1 p ch w1 = Some (x, ch', w3)"
      and n: "now w1 = now w" "now w' = now w3" by blast
    from rrwp_returns[OF rr] obtain k where
      k: "delivered ch' = delivered ch @ stamp_all (now w1) (take k (fst (streams w1 p)))"
         "clock_after (now w1) (take k (fst (streams w1 p))) \<le> now w3"
      by blast
    show ?thesis
    proof (intro exI[of _ "stamp_all (now w1) (take k (fst (streams w1 p)))"] conjI ballI)
      show "delivered ch' = delivered ch @ stamp_all (now w1) (take k (fst (streams w1 p)))"
        by (rule k(1))
    next
      fix ev assume "ev \<in> set (stamp_all (now w1) (take k (fst (streams w1 p))))"
      from stamp_all_elem[OF this] obtain t l p' where
        e: "progress_of l = Some p'" "ev = p'\<lparr>Timestamp := Timestamp ev\<rparr>"
          "max (now w1) t \<le> Timestamp ev"
          "Timestamp ev \<le> clock_after (now w1) (take k (fst (streams w1 p)))"
        by blast
      show "valid_event ev" using progress_of_valid[OF e(1), of "Timestamp ev"] e(2) by simp
      show "now w \<le> Timestamp ev" using e(3) n by simp
      show "Timestamp ev \<le> now w'" using e(4) k(2) n by simp
      show "\<exists>l p. progress_of l = Some p \<and> ev = p\<lparr>Timestamp := Timestamp ev\<rparr>"
        using e(1,2) by blast
    qed
  qed
next
  assume "readResponseWithProgress ctx1 pp ch w1 = Some (res1, ch1, w2)"
  from rrwp_returns[OF this]
  show "\<exists>k. delivered ch1 = delivered ch @ stamp_all (now w1) (take k (fst (streams w1 pp)))"
    by blast
next
  assume a: "\<not> ctx_Done ctx1 (now w1) \<and> streams w1 pp = ((t, l) # rest, e) \<and>
    ProgressEventFromJSON l = Inr p \<and> ProgressEvent_Validate p \<noteq> None"
  then have "progress_of l = None" by (simp add: progress_of_def)
  with a show "readResponseWithProgress ctx1 pp ch w1 = Some (parse_response l, ch, consume pp w1)"
    by (simp add: rrwp_step_final)
qed

section \<open>Runs on the example inputs\<close>

lemmas decode_defs =
  ModuleResponseFromJSON_def ProgressEventFromJSON_def Unmarshal_def ModuleResponse_member_def
  ProgressEvent_member_def zero_ModuleResponse_def zero_ProgressEvent_def sorted_members_def

lemmas example_defs =
  example_progress_def example_response_def example_child_def example_world_def
  example_request_def example_bridge_def example_sink_def NewJSONBridge_def

lemma example_launch:
  "ModuleRequest_Validate example_request = Inr example_request"
  "findModule example_bridge ''youtube'' (example_world c) = Inr ''/plugins/youtube/__main__.py''"
  "exec (example_world c) (pythonPath example_bridge) ''/plugins/youtube/__main__.py'' = Inr c"
  by (simp_all add: example_defs ModuleRequest_Validate_def findModule_def word_sle_eq)

lemma example_ToJSON:
  "ModuleRequest_ToJSON example_request =
     Inr (JObject
       [(''command'', JString ''download''), (''args'', JObject [(''url'', JString ''u'')]),
        (''auth_token'', JString ''a''), (''device_token'', JString ''d''), (''timeout'', JInt 300)])"
  by (simp add: example_defs ModuleRequest_ToJSON_def marshal_map_def sorted_members_def)

lemma example_progress_of:
  "progress_of example_progress =
     Some \<lparr>Stage = ''download'', Current = 1, Total = 2, Percentage = Finite 50,
           Message = ''half'', Timestamp = zero_time\<rparr>"
  "progress_of example_response = None"
  by (simp_all add: progress_of_def decode_defs example_defs ProgressEvent_Validate_def
        float64_of_literal_def word_sless_alt)


lemmas run_defs =
  Execute_def ExecuteWithProgress_def ModuleRequest_Validate_def findModule_def
  launchPythonProcess_def sendRequest_def pipe_call_def ModuleRequest_ToJSON_def marshal_map_def
  sorted_members_def readResponse_def ReadString_def WithTimeout_def ctx_Done_def
  deferred_cleanup_def Process_Kill_def Cmd_Wait_def Let_def ModuleResponse_Validate_def
  ProgressEvent_Validate_def parse_response_def send_def float64_of_literal_def
  ErrInvalidResponse_def ErrModuleError_def ErrModuleTimeout_def io_EOF_def
  word_sle_eq word_sless_alt

lemma run_plain:
  "map_option fst (Execute example_bridge None ''youtube'' example_request
      (example_world progress_then_response)) =
   Some (Inl (BridgeError ''INVALID_RESPONSE'' ''error message required for failed response''))"
  by (simp add: run_defs decode_defs example_defs progress_then_response_def)

lemma run_progress:
  "map_option (\<lambda>(res, ch, b, w). (res, delivered ch, now w))
     (ExecuteWithProgress example_bridge None ''youtube'' example_request example_sink
        (example_world progress_then_response)) =
   Some (Inr \<lparr>Success = True, Data = Some [(''file_path'', GString ''a.mp4'')], Error = [],
               Progress = None\<rparr>,
         [\<lparr>Stage = ''download'', Current = 1, Total = 2, Percentage = Finite 50,
           Message = ''half'', Timestamp = 5\<rparr>], 7)"
  by (simp add: run_defs decode_defs example_defs progress_then_response_def
        readResponseWithProgress.simps delivered_def)

lemma returning_call_is_torn_down_example:
  "\<exists>res b' w'.
     Execute example_bridge None ''youtube'' example_request
       (example_world progress_then_response) = Some (res, b', w') \<and>
     torn_down example_bridge (example_world progress_then_response) progress_then_response
       ''youtube'' b' w'"
proof -
  from run_plain obtain res b' w' where
    run: "Execute example_bridge None ''youtube'' example_request
       (example_world progress_then_response) = Some (res, b', w')"
    by (auto simp: map_option_case split: option.splits)
  from returning_call_is_torn_down[OF example_launch, where ctx = None and res = res and b' = b'
        and w' = w'] run
  show ?thesis by blast
qed

lemma one_second_launch:
  "ModuleRequest_Validate one_second_request = Inr one_second_request"
  "findModule example_bridge ''youtube'' (full_pipe_world c) = Inr ''/plugins/youtube/__main__.py''"
  "exec (full_pipe_world c) (pythonPath example_bridge) ''/plugins/youtube/__main__.py'' = Inr c"
  by (simp_all add: example_defs one_second_request_def full_pipe_world_def
        ModuleRequest_Validate_def findModule_def word_sle_eq)

lemma one_second_ToJSON:
  "ModuleRequest_ToJSON one_second_request =
     Inr (JObject
       [(''command'', JString ''download''), (''args'', JObject [(''url'', JString ''u'')]),
        (''auth_token'', JString ''a''), (''device_token'', JString ''d''), (''timeout'', JInt 1)])"
  by (simp add: example_defs one_second_request_def ModuleRequest_ToJSON_def marshal_map_def
        sorted_members_def)

theorem unanswered_call_never_ends_its_process_witness:
  "Execute example_bridge None ''youtube'' one_second_request (example_world silent) = None \<and>
   ExecuteWithProgress example_bridge None ''youtube'' one_second_request example_sink
     (example_world silent) = None \<and>
   (\<exists>w1. sendRequest (StdinPipe 1) one_second_request (started silent (example_world silent)) =
            Some (None, w1) \<and>
      ReadString (StderrPipe 1) w1 = None \<and> procs w1 1 = Some Running \<and>
      lifecycle (trace w1) = [Start 1]) \<and>
   sendRequest (StdinPipe 1) one_second_request
     (started response_only (full_pipe_world response_only)) = None \<and>
   Execute example_bridge None ''youtube'' one_second_request (full_pipe_world response_only) = None \<and>
   ExecuteWithProgress example_bridge None ''youtube'' one_second_request example_sink
     (full_pipe_world response_only) = None \<and>
   procs (started response_only (full_pipe_world response_only)) 1 = Some Running"
proof -
  let ?w = "example_world silent"
  let ?w1 = "(started silent ?w)\<lparr>trace := trace (started silent ?w) @
      request_ops (StdinPipe (handle silent))
        (JObject
       [(''command'', JString ''download''), (''args'', JObject [(''url'', JString ''u'')]),
        (''auth_token'', JString ''a''), (''device_token'', JString ''d''), (''timeout'', JInt 1)])\<rparr>"
  have h: "handle silent = 1" "still_running silent" "stderr_stream silent = ([], Open)"
    by (simp_all add: silent_def example_child_def)
  have h2: "handle response_only = 1" "still_running response_only"
    by (simp_all add: response_only_def example_child_def)
  have l: "ModuleRequest_Validate one_second_request = Inr one_second_request"
    "findModule example_bridge ''youtube'' ?w = Inr ''/plugins/youtube/__main__.py''"
    "exec ?w (pythonPath example_bridge) ''/plugins/youtube/__main__.py'' = Inr silent"
    by (simp_all add: example_defs one_second_request_def
        ModuleRequest_Validate_def findModule_def word_sle_eq)
  have sr: "sendRequest (StdinPipe (handle silent)) one_second_request (started silent ?w) =
      Some (None, ?w1)"
    by (rule sendRequest_ok[OF one_second_ToJSON]) (simp add: example_world_def)
  have nd: "\<not> ctx_Done (WithTimeout None (Timeout one_second_request) (now ?w)) (now ?w)"
    by (simp add: ctx_Done_def WithTimeout_def example_defs one_second_request_def)
  have tr: "lifecycle (trace ?w) = []" by (simp add: example_world_def lifecycle_def)
  note a = unanswered_call_never_ends_its_process[OF l, where ?w1.0 = ?w1 and ctx = None
      and ch = example_sink, THEN conjunct1, rule_format, OF conjI[OF sr conjI[OF h(3) nd]]]
  have blk: "sendRequest (StdinPipe (handle response_only)) one_second_request
     (started response_only (full_pipe_world response_only)) = None"
    by (simp add: sendRequest_def one_second_ToJSON pipe_call_def full_pipe_world_def)
  note b = unanswered_call_never_ends_its_process[OF one_second_launch, where c = response_only
      and ctx = None and ch = example_sink, THEN conjunct2, rule_format, OF blk]
  have "\<exists>w1. sendRequest (StdinPipe (handle silent)) one_second_request
            (started silent (example_world silent)) = Some (None, w1) \<and>
      ReadString (StderrPipe (handle silent)) w1 = None \<and>
      procs w1 (handle silent) = Some (if still_running silent then Running else Exited) \<and>
      lifecycle (trace w1) = lifecycle (trace (example_world silent)) @ [Start (handle silent)]"
    using a sr by (intro exI[of _ ?w1]) blast
  then have ex: "\<exists>w1. sendRequest (StdinPipe 1) one_second_request
            (started silent (example_world silent)) = Some (None, w1) \<and>
      ReadString (StderrPipe 1) w1 = None \<and> procs w1 1 = Some Running \<and>
      lifecycle (trace w1) = [Start 1]"
    by (simp add: h tr)
  from a have a': "Execute example_bridge None ''youtube'' one_second_request (example_world silent) = None"
    "ExecuteWithProgress example_bridge None ''youtube'' one_second_request example_sink
     (example_world silent) = None"
    by blast+
  from b have b': "Execute example_bridge None ''youtube'' one_second_request
      (full_pipe_world response_only) = None"
    "ExecuteWithProgress example_bridge None ''youtube'' one_second_request example_sink
     (full_pipe_world response_only) = None"
    "procs (started response_only (full_pipe_world response_only)) 1 = Some Running"
    by (simp_all add: h2)
  from blk have blk': "sendRequest (StdinPipe 1) one_second_request
     (started response_only (full_pipe_world response_only)) = None"
    by (simp add: h2)
  from a' ex blk' b' show ?thesis by blast
qed

theorem delivered_events_valid_and_stamped_witness:
  "\<exists>res ch' b' w'.
     ExecuteWithProgress example_bridge None ''youtube'' example_request example_sink
        (example_world progress_then_response) = Some (res, ch', b', w') \<and>
     delivered ch' \<noteq> [] \<and>
     (\<exists>evs. delivered ch' = delivered example_sink @ evs \<and>
         (\<forall>ev \<in> set evs. valid_event ev \<and> 0 \<le> Timestamp ev \<and> Timestamp ev \<le> now w' \<and>
            (\<exists>l p. progress_of l = Some p \<and> ev = p\<lparr>Timestamp := Timestamp ev\<rparr>)))"
proof -
  from run_progress obtain res ch' b' w' where
    run: "ExecuteWithProgress example_bridge None ''youtube'' example_request example_sink
        (example_world progress_then_response) = Some (res, ch', b', w')"
    and d: "delivered ch' \<noteq> []"
    by (auto simp: map_option_case split: option.splits)
  have n: "now (example_world progress_then_response) = 0"
    by (simp add: example_world_def)
  from delivered_events_valid_and_stamped[where b = example_bridge and ctx = None
      and m = "''youtube''" and ?req0.0 = example_request and ch = example_sink
      and w = "example_world progress_then_response" and res = res and ch' = ch' and b' = b'
      and w' = w'] run d n
  show ?thesis by auto
qed

section \<open>Plain Execute reads one line\<close>







section \<open>A line that is not a progress event ends the exchange\<close>

lemma exchange_progress_run:
  assumes sr: "sendRequest pin req w0 = Some (None, w1)"
    and st: "streams w0 perr = (pre @ (t, l) # rest, e)"
    and pr: "\<forall>x \<in> set pre. progress_of (snd x) \<noteq> None" and fin: "progress_of l = None"
    and nd: "\<not> ctx_Done ctx1 (clock_after (now w0) pre)"
    and room: "receiving ch \<or> length (buffer ch) + length pre \<le> capacity ch"
  shows "\<exists>ch'. exchange_progress ctx1 pin perr req ch w0 =
           Some (case ModuleResponseFromJSON l of
                   Inl err \<Rightarrow> Inl (Errorf ''failed to read response'' (Errorf ''failed to parse response'' err))
                 | Inr resp \<Rightarrow>
                     (case ModuleResponse_Validate resp of Some err \<Rightarrow> Inl err | None \<Rightarrow> Inr resp),
                 ch',
                 w1\<lparr>now := max (clock_after (now w0) pre) t,
                    streams := (streams w1)(perr := (rest, e)),
                    trace := trace w1 @ replicate (Suc (length pre)) (Read perr)\<rparr>) \<and>
         delivered ch' = delivered ch @ stamp_all (now w0) pre"
proof -
  from sendRequest_sent[OF sr] have f: "now w1 = now w0" "streams w1 = streams w0" by simp_all
  have st1: "streams w1 perr = (pre @ (t, l) # rest, e)" using st f by simp
  have nd1: "\<not> ctx_Done ctx1 (clock_after (now w1) pre)" using nd f by simp
  from rrwp_run[OF st1 pr fin nd1 room] obtain ch' where
    run: "readResponseWithProgress ctx1 perr ch w1 =
            Some (parse_response l, ch', (consume perr ^^ Suc (length pre)) w1)"
    and d: "delivered ch' = delivered ch @ stamp_all (now w1) pre"
    by blast
  have st2: "streams w1 perr = ((pre @ [(t, l)]) @ rest, e)" using st1 by simp
  have c: "(consume perr ^^ Suc (length pre)) w1 =
      w1\<lparr>now := max (clock_after (now w0) pre) t, streams := (streams w1)(perr := (rest, e)),
         trace := trace w1 @ replicate (Suc (length pre)) (Read perr)\<rparr>"
    using consume_run[OF st2] f by (simp add: clock_after_snoc del: funpow.simps)
  have "exchange_progress ctx1 pin perr req ch w0 =
           Some (case ModuleResponseFromJSON l of
                   Inl err \<Rightarrow> Inl (Errorf ''failed to read response'' (Errorf ''failed to parse response'' err))
                 | Inr resp \<Rightarrow>
                     (case ModuleResponse_Validate resp of Some err \<Rightarrow> Inl err | None \<Rightarrow> Inr resp),
                 ch', (consume perr ^^ Suc (length pre)) w1)"
    unfolding exchange_progress_def sr
    using run
    by (cases "ModuleResponseFromJSON l")
       (auto simp: parse_response_def split: option.splits)
  with d c f show ?thesis by auto
qed

lemma ExecuteWithProgress_run:
  assumes "ModuleRequest_Validate req0 = Inr req" and "findModule b m w = Inr path"
    and "exec w (pythonPath b) path = Inr c"
    and sr: "sendRequest (StdinPipe (handle c)) req (started c w) = Some (None, w1)"
    and st: "stderr_stream c = (pre @ (t, l) # rest, e)"
    and pr: "\<forall>x \<in> set pre. progress_of (snd x) \<noteq> None" and fin: "progress_of l = None"
    and nd: "\<not> ctx_Done (WithTimeout ctx (Timeout req) (now w)) (clock_after (now w) pre)"
    and room: "receiving ch \<or> length (buffer ch) + length pre \<le> capacity ch"
  shows "\<exists>ch'. ExecuteWithProgress b ctx m req0 ch w =
           Some (case ModuleResponseFromJSON l of
                   Inl err \<Rightarrow> Inl (Errorf ''failed to read response'' (Errorf ''failed to parse response'' err))
                 | Inr resp \<Rightarrow>
                     (case ModuleResponse_Validate resp of Some err \<Rightarrow> Inl err | None \<Rightarrow> Inr resp),
                 ch',
                 b\<lparr>processes := (processes b)(m @ ''-'' @ format_int (now w) := None)\<rparr>,
                 w1\<lparr>now := max (clock_after (now w) pre) t,
                    procs := (procs w1)(handle c \<mapsto> Reaped),
                    streams := (streams w1)(StderrPipe (handle c) := (rest, e)),
                    trace := trace w1 @ replicate (Suc (length pre)) (Read (StderrPipe (handle c))) @
                               [Kill (handle c), Wait (handle c)]\<rparr>) \<and>
         delivered ch' = delivered ch @ stamp_all (now w) pre"
proof -
  have nd0: "\<not> ctx_Done (WithTimeout ctx (Timeout req) (now w)) (clock_after (now (started c w)) pre)"
    using nd by simp
  have st0: "streams (started c w) (StderrPipe (handle c)) = (pre @ (t, l) # rest, e)"
    using st by simp
  from sendRequest_sent[OF sr] have p: "procs w1 (handle c) = Some (if still_running c then Running else Exited)"
    by simp
  from exchange_progress_run[OF sr st0 pr fin nd0 room] obtain ch' where
    ex: "exchange_progress (WithTimeout ctx (Timeout req) (now w)) (StdinPipe (handle c))
            (StderrPipe (handle c)) req ch (started c w) =
           Some (case ModuleResponseFromJSON l of
                   Inl err \<Rightarrow> Inl (Errorf ''failed to read response'' (Errorf ''failed to parse response'' err))
                 | Inr resp \<Rightarrow>
                     (case ModuleResponse_Validate resp of Some err \<Rightarrow> Inl err | None \<Rightarrow> Inr resp),
                 ch',
                 w1\<lparr>now := max (clock_after (now (started c w)) pre) t,
                    streams := (streams w1)(StderrPipe (handle c) := (rest, e)),
                    trace := trace w1 @ replicate (Suc (length pre)) (Read (StderrPipe (handle c)))\<rparr>)"
    and d: "delivered ch' = delivered ch @ stamp_all (now (started c w)) pre"
    by blast
  have "ExecuteWithProgress b ctx m req0 ch w =
           Some (case ModuleResponseFromJSON l of
                   Inl err \<Rightarrow> Inl (Errorf ''failed to read response'' (Errorf ''failed to parse response'' err))
                 | Inr resp \<Rightarrow>
                     (case ModuleResponse_Validate resp of Some err \<Rightarrow> Inl err | None \<Rightarrow> Inr resp),
                 ch',
                 b\<lparr>processes := (processes b)(m @ ''-'' @ format_int (now w) := None)\<rparr>,
                 w1\<lparr>now := max (clock_after (now w) pre) t,
                    procs := (procs w1)(handle c \<mapsto> Reaped),
                    streams := (streams w1)(StderrPipe (handle c) := (rest, e)),
                    trace := trace w1 @ replicate (Suc (length pre)) (Read (StderrPipe (handle c))) @
                               [Kill (handle c), Wait (handle c)]\<rparr>)"
    unfolding ExecuteWithProgress_launched[OF assms(1-3)] ex deferred_cleanup_eq
    using p by simp
  with d show ?thesis by auto
qed

text \<open>
  C3, as amended. The read loop skips no line. When the request has been sent, after any
  run of valid progress lines (each delivered to the sink), the first line that is not a
  valid progress event ends the loop, and the loop returns that line parsed as the
  response. When the line is no valid response either, \<open>ExecuteWithProgress\<close> returns an
  error: the parse error, wrapped, when the line does not decode as a response, and the
  error of \<open>ModuleResponse.Validate\<close> when it decodes as an invalid one. The lines after it
  are not read: the reads of the call are one for each progress line and one for that
  line, the kill and the wait follow them, and the rest of the stream is still in the
  pipe when the call returns.
\<close>

theorem other_line_ends_the_call:
  assumes "ModuleRequest_Validate req0 = Inr req" and "findModule b m w = Inr path"
    and "exec w (pythonPath b) path = Inr c"
    and "sendRequest (StdinPipe (handle c)) req (started c w) = Some (None, w1)"
    and "stderr_stream c = (pre @ (t, l) # rest, e)"
    and "\<forall>x \<in> set pre. progress_of (snd x) \<noteq> None" and "progress_of l = None"
    and "\<forall>resp. ModuleResponseFromJSON l = Inr resp \<longrightarrow> ModuleResponse_Validate resp \<noteq> None"
    and "\<not> ctx_Done (WithTimeout ctx (Timeout req) (now w)) (clock_after (now w) pre)"
    and "receiving ch \<or> length (buffer ch) + length pre \<le> capacity ch"
  shows "\<exists>err ch'.
           ExecuteWithProgress b ctx m req0 ch w =
             Some (Inl err, ch',
                   b\<lparr>processes := (processes b)(m @ ''-'' @ format_int (now w) := None)\<rparr>,
                   w1\<lparr>now := max (clock_after (now w) pre) t,
                      procs := (procs w1)(handle c \<mapsto> Reaped),
                      streams := (streams w1)(StderrPipe (handle c) := (rest, e)),
                      trace := trace w1 @ replicate (Suc (length pre)) (Read (StderrPipe (handle c))) @
                                 [Kill (handle c), Wait (handle c)]\<rparr>) \<and>
           delivered ch' = delivered ch @ stamp_all (now w) pre \<and>
           (case ModuleResponseFromJSON l of
              Inl e \<Rightarrow> err = Errorf ''failed to read response'' (Errorf ''failed to parse response'' e)
            | Inr resp \<Rightarrow> ModuleResponse_Validate resp = Some err) \<and>
           streams w1 = streams (started c w) \<and>
           (\<exists>data. ModuleRequest_ToJSON req = Inr data \<and>
              trace w1 = trace w @ Start (handle c) # request_ops (StdinPipe (handle c)) data)"
proof -
  from ExecuteWithProgress_run[OF assms(1-7) assms(9,10)] obtain ch' where
    run: "ExecuteWithProgress b ctx m req0 ch w =
           Some (case ModuleResponseFromJSON l of
                   Inl err \<Rightarrow> Inl (Errorf ''failed to read response'' (Errorf ''failed to parse response'' err))
                 | Inr resp \<Rightarrow>
                     (case ModuleResponse_Validate resp of Some err \<Rightarrow> Inl err | None \<Rightarrow> Inr resp),
                 ch',
                 b\<lparr>processes := (processes b)(m @ ''-'' @ format_int (now w) := None)\<rparr>,
                 w1\<lparr>now := max (clock_after (now w) pre) t,
                    procs := (procs w1)(handle c \<mapsto> Reaped),
                    streams := (streams w1)(StderrPipe (handle c) := (rest, e)),
                    trace := trace w1 @ replicate (Suc (length pre)) (Read (StderrPipe (handle c))) @
                               [Kill (handle c), Wait (handle c)]\<rparr>)"
    and d: "delivered ch' = delivered ch @ stamp_all (now w) pre"
    by blast
  from sendRequest_sent[OF assms(4)] have
    s: "streams w1 = streams (started c w)"
       "\<exists>data. ModuleRequest_ToJSON req = Inr data \<and>
          trace w1 = trace w @ Start (handle c) # request_ops (StdinPipe (handle c)) data"
    by simp_all
  show ?thesis
  proof (cases "ModuleResponseFromJSON l")
    case (Inl e)
    with run d s show ?thesis by auto
  next
    case (Inr resp)
    with assms(8) obtain err where "ModuleResponse_Validate resp = Some err" by auto
    with run d s Inr show ?thesis by auto
  qed
qed

lemma malformed_neither: 
  "progress_of Malformed = None" "ModuleResponseFromJSON Malformed = Inl SyntaxError"
  by (simp_all add: progress_of_def decode_defs)

theorem other_line_ends_the_call_witness:
  "\<exists>ch' b' w'.
     ExecuteWithProgress example_bridge None ''youtube'' example_request example_sink
       (example_world progress_malformed_response) =
     Some (Inl (Errorf ''failed to read response'' (Errorf ''failed to parse response'' SyntaxError)),
           ch', b', w') \<and>
     delivered ch' =
       [\<lparr>Stage = ''download'', Current = 1, Total = 2, Percentage = Finite 50,
         Message = ''half'', Timestamp = 1\<rparr>] \<and>
     streams w' (StderrPipe 1) = ([(3, example_response)], EOF 4) \<and>
     filter (\<lambda>x. x = Read (StderrPipe 1)) (trace w') = [Read (StderrPipe 1), Read (StderrPipe 1)] \<and>
     now w' = 2"
proof -
  let ?c = "progress_malformed_response"
  let ?data = "JObject
             [(''command'', JString ''download''), (''args'', JObject [(''url'', JString ''u'')]),
              (''auth_token'', JString ''a''), (''device_token'', JString ''d''),
              (''timeout'', JInt 300)]"
  have sr: "sendRequest (StdinPipe (handle ?c)) example_request (started ?c (example_world ?c)) =
      Some (None, (started ?c (example_world ?c))\<lparr>trace := trace (started ?c (example_world ?c)) @
         request_ops (StdinPipe (handle ?c)) ?data\<rparr>)"
    by (rule sendRequest_ok[OF example_ToJSON]) (simp add: example_world_def)
  have h: "handle ?c = 1" by (simp add: progress_malformed_response_def example_child_def)
  have st: "stderr_stream ?c = ([(1, example_progress)] @ (2, Malformed) # [(3, example_response)], EOF 4)"
    by (simp add: progress_malformed_response_def example_child_def)
  have pre: "\<forall>x \<in> set [(1::int, example_progress)]. progress_of (snd x) \<noteq> None"
    by (simp add: example_progress_of)
  have inv: "\<forall>resp. ModuleResponseFromJSON Malformed = Inr resp \<longrightarrow> ModuleResponse_Validate resp \<noteq> None"
    by (simp add: malformed_neither)
  have nd: "\<not> ctx_Done (WithTimeout None (Timeout example_request) (now (example_world ?c)))
            (clock_after (now (example_world ?c)) [(1, example_progress)])"
    by (simp add: ctx_Done_def WithTimeout_def example_defs)
  have room: "receiving example_sink \<or>
      length (buffer example_sink) + length [(1::int, example_progress)] \<le> capacity example_sink"
    by (simp add: example_sink_def)
  from other_line_ends_the_call[OF example_launch sr st pre malformed_neither(1) inv nd room]
  show ?thesis
    unfolding h
    by (auto simp: malformed_neither example_progress_of delivered_def example_sink_def
        example_world_def request_ops_def)
qed

text \<open>
  C3 as stated fails: a line that is not JSON, followed by a valid final response, is not
  skipped; \<open>ExecuteWithProgress\<close> returns the parse error of that line.
\<close>

theorem malformed_line_is_not_skipped:
  "progress_of Malformed = None \<and> ModuleResponseFromJSON Malformed = Inl SyntaxError \<and>
   stderr_stream malformed_then_response = ([(1, Malformed), (2, example_response)], EOF 3) \<and>
   map_option fst
     (ExecuteWithProgress example_bridge None ''youtube'' example_request example_sink
        (example_world malformed_then_response)) =
   Some (Inl (Errorf ''failed to read response'' (Errorf ''failed to parse response'' SyntaxError)))"
proof (intro conjI)
  show "progress_of Malformed = None" by (rule malformed_neither)
  show "ModuleResponseFromJSON Malformed = Inl SyntaxError" by (rule malformed_neither)
  show "stderr_stream malformed_then_response = ([(1, Malformed), (2, example_response)], EOF 3)"
    by (simp add: malformed_then_response_def example_child_def)
  show "map_option fst
     (ExecuteWithProgress example_bridge None ''youtube'' example_request example_sink
        (example_world malformed_then_response)) =
   Some (Inl (Errorf ''failed to read response'' (Errorf ''failed to parse response'' SyntaxError)))"
    by (simp add: run_defs decode_defs example_defs malformed_then_response_def
        readResponseWithProgress.simps)
qed

section \<open>The pipes of the exchange\<close>

lemma deferred_cleanup_trace:
  "deferred_cleanup pid cmd (b, w) = Some (b', w') \<Longrightarrow> trace w' = trace w @ [Kill cmd, Wait cmd]"
  using deferred_cleanup_returns[of pid cmd b w] by auto

lemma io_calls_launched:
  "io_calls (Start h # take k (request_ops pin data) @ replicate n (Read perr) @ [Kill h, Wait h]) =
     take k (request_ops pin data) @ replicate n (Read perr)"
  by (simp add: io_calls_def io_request_ops)

text \<open>
  C5, as amended. In every returning call that launched a process, the calls that move
  data are, in this order: the calls that send the request on the standard input pipe
  of the process (the JSON document, a line break, the close; all three when no write
  fails, and then the request is one JSON line followed by the close of the pipe), and
  after a complete send the reads of lines, every one of them on the standard error pipe
  of the process. The standard output pipe, which \<open>launchPythonProcess\<close> makes and does
  not return, is never read.
\<close>

theorem request_on_stdin_lines_from_stderr:
  assumes "ModuleRequest_Validate req0 = Inr req" and "findModule b m w = Inr path"
    and "exec w (pythonPath b) path = Inr c"
  shows "(Execute b ctx m req0 w = Some (res, b', w') \<longrightarrow>
           (\<exists>new k n data. trace w' = trace w @ new \<and>
              io_calls new = take k (request_ops (StdinPipe (handle c)) data) @
                             replicate n (Read (StderrPipe (handle c))) \<and>
              (ModuleRequest_ToJSON req = Inr data \<or> k = 0) \<and> (k = 3 \<or> n = 0))) \<and>
         (ExecuteWithProgress b ctx m req0 ch w = Some (res2, ch2, b2, w2) \<longrightarrow>
           (\<exists>new k n data. trace w2 = trace w @ new \<and>
              io_calls new = take k (request_ops (StdinPipe (handle c)) data) @
                             replicate n (Read (StderrPipe (handle c))) \<and>
              (ModuleRequest_ToJSON req = Inr data \<or> k = 0) \<and> (k = 3 \<or> n = 0))) \<and>
         (ModuleRequest_ToJSON req = Inr data0 \<and> writes w0 (StdinPipe (handle c)) = [] \<longrightarrow>
            sendRequest (StdinPipe (handle c)) req w0 =
              Some (None, w0\<lparr>trace := trace w0 @
                 [Write (StdinPipe (handle c)) (JSONText data0),
                  Write (StdinPipe (handle c)) (Bytes [CHR 0x0A]),
                  Close (StdinPipe (handle c))]\<rparr>))"
proof (intro conjI impI)
  assume run: "Execute b ctx m req0 w = Some (res, b', w')"
  from run Execute_launched[OF assms, of ctx] obtain w3 where
    ex: "exchange (WithTimeout ctx (Timeout req) (now w)) (StdinPipe (handle c))
           (StderrPipe (handle c)) req (started c w) = Some (res, w3)"
    and dc: "deferred_cleanup (m @ ''-'' @ format_int (now w)) (handle c)
            (b\<lparr>processes := (processes b)(m @ ''-'' @ format_int (now w) \<mapsto> handle c)\<rparr>, w3) = Some (b', w')"
    by (auto split: option.splits)
  from exchange_frame[OF ex] obtain k n data where
    tr: "trace w3 = trace (started c w) @ take k (request_ops (StdinPipe (handle c)) data)
        @ replicate n (Read (StderrPipe (handle c)))"
    and kn: "ModuleRequest_ToJSON req = Inr data \<or> k = 0" "k = 3 \<or> n = 0"
    by blast
  let ?new = "Start (handle c) # take k (request_ops (StdinPipe (handle c)) data) @
      replicate n (Read (StderrPipe (handle c))) @ [Kill (handle c), Wait (handle c)]"
  have "trace w' = trace w @ ?new"
    using deferred_cleanup_trace[OF dc] tr by simp
  with kn io_calls_launched[of "handle c" k "StdinPipe (handle c)" data n "StderrPipe (handle c)"]
  show "\<exists>new k n data. trace w' = trace w @ new \<and>
              io_calls new = take k (request_ops (StdinPipe (handle c)) data) @
                             replicate n (Read (StderrPipe (handle c))) \<and>
              (ModuleRequest_ToJSON req = Inr data \<or> k = 0) \<and> (k = 3 \<or> n = 0)"
    by blast
next
  assume run: "ExecuteWithProgress b ctx m req0 ch w = Some (res2, ch2, b2, w2)"
  from run ExecuteWithProgress_launched[OF assms, of ctx ch] obtain w3 where
    ex: "exchange_progress (WithTimeout ctx (Timeout req) (now w)) (StdinPipe (handle c))
           (StderrPipe (handle c)) req ch (started c w) = Some (res2, ch2, w3)"
    and dc: "deferred_cleanup (m @ ''-'' @ format_int (now w)) (handle c)
            (b\<lparr>processes := (processes b)(m @ ''-'' @ format_int (now w) \<mapsto> handle c)\<rparr>, w3) = Some (b2, w2)"
    by (auto split: option.splits)
  from exchange_progress_frame[OF ex] obtain k n data where
    tr: "trace w3 = trace (started c w) @ take k (request_ops (StdinPipe (handle c)) data)
        @ replicate n (Read (StderrPipe (handle c)))"
    and kn: "ModuleRequest_ToJSON req = Inr data \<or> k = 0" "k = 3 \<or> n = 0"
    by blast
  let ?new = "Start (handle c) # take k (request_ops (StdinPipe (handle c)) data) @
      replicate n (Read (StderrPipe (handle c))) @ [Kill (handle c), Wait (handle c)]"
  have "trace w2 = trace w @ ?new"
    using deferred_cleanup_trace[OF dc] tr by simp
  with kn io_calls_launched[of "handle c" k "StdinPipe (handle c)" data n "StderrPipe (handle c)"]
  show "\<exists>new k n data. trace w2 = trace w @ new \<and>
              io_calls new = take k (request_ops (StdinPipe (handle c)) data) @
                             replicate n (Read (StderrPipe (handle c))) \<and>
              (ModuleRequest_ToJSON req = Inr data \<or> k = 0) \<and> (k = 3 \<or> n = 0)"
    by blast
next
  assume "ModuleRequest_ToJSON req = Inr data0 \<and> writes w0 (StdinPipe (handle c)) = []"
  then show "sendRequest (StdinPipe (handle c)) req w0 =
              Some (None, w0\<lparr>trace := trace w0 @
                 [Write (StdinPipe (handle c)) (JSONText data0),
                  Write (StdinPipe (handle c)) (Bytes [CHR 0x0A]),
                  Close (StdinPipe (handle c))]\<rparr>)"
    using sendRequest_ok[of req data0 w0 "StdinPipe (handle c)"] by (simp add: request_ops_def)
qed

lemma run_stdout:
  "map_option (\<lambda>(res, b, w). (res, io_calls (trace w)))
     (Execute example_bridge None ''youtube'' example_request (example_world response_on_stdout)) =
   Some (Inl (Errorf ''failed to read response''
                (BridgeError ''MODULE_ERROR'' ''module process ended unexpectedly'')),
         [Write (StdinPipe 1) (JSONText (JObject
            [(''command'', JString ''download''), (''args'', JObject [(''url'', JString ''u'')]),
             (''auth_token'', JString ''a''), (''device_token'', JString ''d''),
             (''timeout'', JInt 300)])),
          Write (StdinPipe 1) (Bytes [CHR 0x0A]), Close (StdinPipe 1), Read (StderrPipe 1)])"
  by (simp add: run_defs decode_defs example_defs response_on_stdout_def io_calls_def)

theorem request_on_stdin_lines_from_stderr_witness:
  "\<exists>res b' w' new k n data.
     Execute example_bridge None ''youtube'' example_request (example_world response_on_stdout) =
       Some (res, b', w') \<and>
     trace w' = trace (example_world response_on_stdout) @ new \<and>
     io_calls new = take k (request_ops (StdinPipe (handle response_on_stdout)) data) @
                    replicate n (Read (StderrPipe (handle response_on_stdout))) \<and>
     (ModuleRequest_ToJSON example_request = Inr data \<or> k = 0) \<and> (k = 3 \<or> n = 0)"
proof -
  from run_stdout obtain res b' w' where
    run: "Execute example_bridge None ''youtube'' example_request
       (example_world response_on_stdout) = Some (res, b', w')"
    by (auto simp: map_option_case split: option.splits)
  have "Execute example_bridge None ''youtube'' example_request
       (example_world response_on_stdout) = Some (res, b', w') \<longrightarrow>
     (\<exists>new k n data. trace w' = trace (example_world response_on_stdout) @ new \<and>
       io_calls new = take k (request_ops (StdinPipe (handle response_on_stdout)) data) @
                    replicate n (Read (StderrPipe (handle response_on_stdout))) \<and>
       (ModuleRequest_ToJSON example_request = Inr data \<or> k = 0) \<and> (k = 3 \<or> n = 0))"
    by (rule conjunct1[OF request_on_stdin_lines_from_stderr[OF example_launch]])
  with run show ?thesis by fast
qed

text \<open>
  C5 as stated fails: a module that writes its final response to its standard output,
  and nothing to its standard error, is not heard. \<open>Execute\<close> sends the request, reads
  the standard error pipe once, finds the end of the stream and returns MODULE_ERROR.
\<close>

theorem response_on_stdout_is_not_read:
  "stdout_stream response_on_stdout = ([(1, example_response)], EOF 2) \<and>
   stderr_stream response_on_stdout = ([], EOF 2) \<and>
   map_option (\<lambda>(res, b, w). (res, io_calls (trace w)))
     (Execute example_bridge None ''youtube'' example_request (example_world response_on_stdout)) =
   Some (Inl (Errorf ''failed to read response''
                (BridgeError ''MODULE_ERROR'' ''module process ended unexpectedly'')),
         [Write (StdinPipe 1) (JSONText (JObject
            [(''command'', JString ''download''), (''args'', JObject [(''url'', JString ''u'')]),
             (''auth_token'', JString ''a''), (''device_token'', JString ''d''),
             (''timeout'', JInt 300)])),
          Write (StdinPipe 1) (Bytes [CHR 0x0A]), Close (StdinPipe 1), Read (StderrPipe 1)])"
proof (intro conjI)
  show "stdout_stream response_on_stdout = ([(1, example_response)], EOF 2)"
    by (simp add: response_on_stdout_def example_child_def)
  show "stderr_stream response_on_stdout = ([], EOF 2)"
    by (simp add: response_on_stdout_def example_child_def)
qed (rule run_stdout)

section \<open>The deadline and the progress channel\<close>

text \<open>
  C2. The claim is that a call with deadline \<open>d\<close> returns ModuleTimeout at about \<open>d\<close>
  when the module has not answered by then. The code looks at the context only before
  each read, and the read itself waits for its line. With a timeout of one second and a
  module that answers after ten seconds, both \<open>Execute\<close> and \<open>ExecuteWithProgress\<close> return
  at ten seconds, with the module's response and no timeout; with a module that never
  writes and keeps its pipes open, neither call returns.
\<close>

theorem deadline_does_not_abort_pending_read:
  "WithTimeout None (Timeout one_second_request) (now (example_world late_response)) = Some 1000000000 \<and>
   map_option (\<lambda>(res, b, w). (res, now w))
     (Execute example_bridge None ''youtube'' one_second_request (example_world late_response)) =
   Some (Inr \<lparr>Success = True, Data = Some [(''file_path'', GString ''a.mp4'')], Error = [],
               Progress = None\<rparr>, 10000000000) \<and>
   map_option (\<lambda>(res, ch, b, w). (res, now w))
     (ExecuteWithProgress example_bridge None ''youtube'' one_second_request example_sink
        (example_world late_response)) =
   Some (Inr \<lparr>Success = True, Data = Some [(''file_path'', GString ''a.mp4'')], Error = [],
               Progress = None\<rparr>, 10000000000) \<and>
   Execute example_bridge None ''youtube'' one_second_request (example_world silent) = None \<and>
   ExecuteWithProgress example_bridge None ''youtube'' one_second_request example_sink
     (example_world silent) = None"
proof (intro conjI)
  show "WithTimeout None (Timeout one_second_request) (now (example_world late_response)) =
      Some 1000000000"
    by (simp add: WithTimeout_def one_second_request_def example_defs)
  show "map_option (\<lambda>(res, b, w). (res, now w))
     (Execute example_bridge None ''youtube'' one_second_request (example_world late_response)) =
   Some (Inr \<lparr>Success = True, Data = Some [(''file_path'', GString ''a.mp4'')], Error = [],
               Progress = None\<rparr>, 10000000000)"
    by (simp add: run_defs decode_defs example_defs late_response_def one_second_request_def)
  show "map_option (\<lambda>(res, ch, b, w). (res, now w))
     (ExecuteWithProgress example_bridge None ''youtube'' one_second_request example_sink
        (example_world late_response)) =
   Some (Inr \<lparr>Success = True, Data = Some [(''file_path'', GString ''a.mp4'')], Error = [],
               Progress = None\<rparr>, 10000000000)"
    by (simp add: run_defs decode_defs example_defs late_response_def one_second_request_def
          readResponseWithProgress.simps)
  show "Execute example_bridge None ''youtube'' one_second_request (example_world silent) = None"
    by (simp add: run_defs decode_defs example_defs silent_def one_second_request_def)
  show "ExecuteWithProgress example_bridge None ''youtube'' one_second_request example_sink
     (example_world silent) = None"
    by (simp add: run_defs decode_defs example_defs silent_def one_second_request_def
          readResponseWithProgress.simps)
qed

lemma send_None: "send ch ev = None \<longleftrightarrow> \<not> receiving ch \<and> capacity ch \<le> length (buffer ch)"
  by (auto simp: send_def)

text \<open>
  C4, as amended. The handoff of a progress event is a plain channel send. A send that
  returns has put the event behind the events sent before it, and none is dropped; a
  send returns exactly when a receiver takes the event or the buffer has room. When the
  buffer is full and nothing receives, the send of the next valid progress event does not
  return, and the read loop with it, whatever the deadline. When a receiver is there or
  the buffer has room for them, all the valid progress events before the final line are
  delivered, in the order of their lines, and the loop returns the final line.
\<close>

theorem progress_handoff_is_blocking_send:
  "(send ch ev = Some ch' \<longrightarrow> delivered ch' = delivered ch @ [ev]) \<and>
   (send ch ev = None \<longleftrightarrow> \<not> receiving ch \<and> capacity ch \<le> length (buffer ch)) \<and>
   (\<not> ctx_Done ctx (now w) \<and> streams w p = ((t, l) # rest, e) \<and> progress_of l = Some pe \<and>
    \<not> receiving ch \<and> capacity ch \<le> length (buffer ch) \<longrightarrow>
      readResponseWithProgress ctx p ch w = None) \<and>
   (streams w p = (pre @ (t, l) # rest, e) \<and> (\<forall>x \<in> set pre. progress_of (snd x) \<noteq> None) \<and>
    progress_of l = None \<and> \<not> ctx_Done ctx (clock_after (now w) pre) \<and>
    (receiving ch \<or> length (buffer ch) + length pre \<le> capacity ch) \<longrightarrow>
      (\<exists>ch2 w2. readResponseWithProgress ctx p ch w = Some (parse_response l, ch2, w2) \<and>
         delivered ch2 = delivered ch @ stamp_all (now w) pre))"
proof (intro conjI impI)
  assume "send ch ev = Some ch'"
  then show "delivered ch' = delivered ch @ [ev]" by (rule send_delivered)
next
  show "send ch ev = None \<longleftrightarrow> \<not> receiving ch \<and> capacity ch \<le> length (buffer ch)"
    by (rule send_None)
next
  assume a: "\<not> ctx_Done ctx (now w) \<and> streams w p = ((t, l) # rest, e) \<and> progress_of l = Some pe \<and>
    \<not> receiving ch \<and> capacity ch \<le> length (buffer ch)"
  then have "send ch (pe\<lparr>Timestamp := max (now w) t\<rparr>) = None"
    by (simp add: send_None)
  with a show "readResponseWithProgress ctx p ch w = None"
    by (simp add: rrwp_step_progress)
next
  assume a: "streams w p = (pre @ (t, l) # rest, e) \<and> (\<forall>x \<in> set pre. progress_of (snd x) \<noteq> None) \<and>
    progress_of l = None \<and> \<not> ctx_Done ctx (clock_after (now w) pre) \<and>
    (receiving ch \<or> length (buffer ch) + length pre \<le> capacity ch)"
  then have "\<exists>ch'. readResponseWithProgress ctx p ch w =
                 Some (parse_response l, ch', (consume p ^^ Suc (length pre)) w) \<and>
               delivered ch' = delivered ch @ stamp_all (now w) pre \<and>
               capacity ch' = capacity ch \<and> receiving ch' = receiving ch"
    by (intro rrwp_run) simp_all
  then show "\<exists>ch2 w2. readResponseWithProgress ctx p ch w = Some (parse_response l, ch2, w2) \<and>
         delivered ch2 = delivered ch @ stamp_all (now w) pre"
    by blast
qed

theorem progress_handoff_is_blocking_send_witness:
  "readResponseWithProgress (Some 100) (StderrPipe 1) full_sink
     (started progress_then_response (example_world progress_then_response)) = None \<and>
   (\<exists>ch2 w2. readResponseWithProgress (Some 100) (StderrPipe 1) example_sink
        (started progress_then_response (example_world progress_then_response)) =
      Some (parse_response example_response, ch2, w2) \<and>
      delivered ch2 = delivered example_sink @
        stamp_all 0 [(5, example_progress)])"
proof -
  let ?w = "started progress_then_response (example_world progress_then_response)"
  have h: "handle progress_then_response = 1"
    by (simp add: progress_then_response_def example_child_def)
  have st: "streams ?w (StderrPipe 1) = ([(5, example_progress)] @ (7, example_response) # [], EOF 8)"
    using started_simps(4)[of progress_then_response "example_world progress_then_response"]
    by (simp add: h progress_then_response_def example_child_def)
  have n: "now ?w = 0" by (simp add: example_world_def)
  note inst = progress_handoff_is_blocking_send[where ctx = "Some 100" and w = ?w
      and p = "StderrPipe 1" and e = "EOF 8"]
  have "readResponseWithProgress (Some 100) (StderrPipe 1) full_sink ?w = None"
    using inst[where ch = full_sink and t = 5 and l = example_progress
        and rest = "[(7, example_response)]", THEN conjunct2, THEN conjunct2, THEN conjunct1]
      st n
    by (simp add: ctx_Done_def example_progress_of full_sink_def)
  moreover have "\<exists>ch2 w2. readResponseWithProgress (Some 100) (StderrPipe 1) example_sink ?w =
      Some (parse_response example_response, ch2, w2) \<and>
      delivered ch2 = delivered example_sink @ stamp_all 0 [(5, example_progress)]"
    using inst[where ch = example_sink and t = 7 and l = example_response and rest = "[]"
        and pre = "[(5, example_progress)]", THEN conjunct2, THEN conjunct2, THEN conjunct2]
      st n
    by (simp add: ctx_Done_def example_progress_of example_sink_def)
  ultimately show ?thesis by blast
qed

text \<open>
  C4 as stated fails: with a full buffer and no receiver, the event of a valid progress
  line is neither dropped nor given up after a bounded wait; \<open>ExecuteWithProgress\<close> does
  not return.
\<close>

theorem full_sink_blocks_the_call:
  "length (buffer full_sink) = capacity full_sink \<and> \<not> receiving full_sink \<and>
   progress_of example_progress \<noteq> None \<and>
   stderr_stream progress_then_response = ([(5, example_progress), (7, example_response)], EOF 8) \<and>
   ExecuteWithProgress example_bridge None ''youtube'' example_request full_sink
     (example_world progress_then_response) = None"
proof (intro conjI)
  show "ExecuteWithProgress example_bridge None ''youtube'' example_request full_sink
     (example_world progress_then_response) = None"
    by (simp add: run_defs decode_defs example_defs progress_then_response_def full_sink_def
          readResponseWithProgress.simps)
qed (simp_all add: full_sink_def example_progress_of progress_then_response_def example_child_def)

section \<open>Loading the plugins directory\<close>

lemma loadModule_cases:
  "(\<exists>err ws. loadModule r fs n p = (Some err, r\<lparr>logged := logged r @ ws\<rparr>)) \<or>
   (\<exists>manifest ws. loadModule r fs n p =
      (None, r\<lparr>modules := (modules r)(n \<mapsto>
                 \<lparr>Manifest = manifest, Path = p, LoadedAt = clock fs, Signature = []\<rparr>),
               manifests := (manifests r)(n \<mapsto> manifest),
               logged := logged r @ ws\<rparr>) \<and>
      readManifest fs (Join p ''manifest.json'') = Inr manifest)"
proof (cases "IsNotExist fs (Join p ''manifest.json'')")
  case True
  then have "loadModule r fs n p = (Some (ErrorString ''manifest.json not found''), r\<lparr>logged := logged r @ []\<rparr>)"
    by (simp add: loadModule_def)
  then show ?thesis by blast
next
  case False
  note m = this
  show ?thesis
  proof (cases "readManifest fs (Join p ''manifest.json'')")
    case (Inl err)
    with m have "loadModule r fs n p = (Some (Errorf ''failed to read manifest'' err), r\<lparr>logged := logged r @ []\<rparr>)"
      by (simp add: loadModule_def)
    then show ?thesis by blast
  next
    case (Inr manifest)
    note rm = this
    show ?thesis
    proof (cases "IsNotExist fs (Join p ''__main__.py'')")
      case True
      with m rm have "loadModule r fs n p = (Some (ErrorString ''__main__.py not found''), r\<lparr>logged := logged r @ []\<rparr>)"
        by (simp add: loadModule_def)
      then show ?thesis by blast
    next
      case False
      obtain res ws where vm: "validateModule fs manifest p = (res, ws)" by force
      show ?thesis
      proof (cases res)
        case (Some err)
        with m rm False vm have "loadModule r fs n p =
            (Some (Errorf ''module validation failed'' err), r\<lparr>logged := logged r @ ws\<rparr>)"
          by (simp add: loadModule_def)
        then show ?thesis by blast
      next
        case None
        with m rm False vm have "loadModule r fs n p =
          (None, r\<lparr>modules := (modules r)(n \<mapsto>
                 \<lparr>Manifest = manifest, Path = p, LoadedAt = clock fs, Signature = []\<rparr>),
               manifests := (manifests r)(n \<mapsto> manifest),
               logged := logged r @ (ws @ [Info ''Module loaded'' [(''name'', n), (''version'', Version manifest)]])\<rparr>)"
          by (simp add: loadModule_def)
        with rm show ?thesis by blast
      qed
    qed
  qed
qed

lemma loadModule_fst_indep: "fst (loadModule r fs n p) = fst (loadModule r0 fs n p)"
  by (simp add: loadModule_def split: sum.splits prod.splits option.splits)

lemma loadModule_registers:
  "loadModule r fs n (Join (PluginsDir r) n) = (res, r') \<Longrightarrow>
   PluginsDir r' = PluginsDir r \<and> (\<exists>ws. logged r' = logged r @ ws) \<and>
   (res = None \<longleftrightarrow> registers fs (PluginsDir r) n \<noteq> None) \<and>
   modules r' = (case registers fs (PluginsDir r) n of
                   None \<Rightarrow> modules r
                 | Some info \<Rightarrow> (modules r)(n \<mapsto> info))"
  using loadModule_cases[of r fs n "Join (PluginsDir r) n"]
        loadModule_cases[of "NewPluginRegistry (PluginsDir r)" fs n "Join (PluginsDir r) n"]
        loadModule_fst_indep[of r fs n "Join (PluginsDir r) n" "NewPluginRegistry (PluginsDir r)"]
  by (auto simp: registers_def NewPluginRegistry_def)

lemma load_entries_registers:
  "load_entries fs entries r n = (r', n') \<Longrightarrow>
   PluginsDir r' = PluginsDir r \<and>
   (\<forall>name. modules r' name =
      (if (name, True) \<in> set entries
       then (case registers fs (PluginsDir r) name of Some info \<Rightarrow> Some info | None \<Rightarrow> modules r name)
       else modules r name)) \<and>
   n' = n + length (filter (\<lambda>e. snd e \<and> registers fs (PluginsDir r) (fst e) \<noteq> None) entries) \<and>
   (\<forall>x \<in> set (logged r). x \<in> set (logged r')) \<and>
   (\<forall>name. (name, True) \<in> set entries \<and> registers fs (PluginsDir r) name = None \<longrightarrow>
      (\<exists>err. Warn ''Failed to load module'' [(''module'', name), (''error'', err)] \<in> set (logged r')))"
proof (induction entries arbitrary: r n)
  case Nil
  then show ?case by simp
next
  case (Cons entry entries)
  obtain moduleName isDir where e: "entry = (moduleName, isDir)" by (cases entry)
  show ?case
  proof (cases isDir)
    case False
    with Cons.prems e have "load_entries fs entries r n = (r', n')" by simp
    from Cons.IH[OF this] show ?thesis using e False by auto
  next
    case True
    obtain res r1 where lm: "loadModule r fs moduleName (Join (PluginsDir r) moduleName) = (res, r1)"
      by force
    note reg = loadModule_registers[OF lm]
    show ?thesis
    proof (cases res)
      case None
      with Cons.prems e True lm have run: "load_entries fs entries r1 (n + 1) = (r', n')" by simp
      from None reg obtain info where info: "registers fs (PluginsDir r) moduleName = Some info"
        by auto
      from Cons.IH[OF run] reg info e True show ?thesis
        by (auto split: option.splits)
    next
      case (Some err)
      let ?r2 = "r1\<lparr>logged := logged r1 @
            [Warn ''Failed to load module'' [(''module'', moduleName), (''error'', error_text err)]]\<rparr>"
      from Some Cons.prems e True lm have run: "load_entries fs entries ?r2 n = (r', n')" by simp
      from Some reg have none: "registers fs (PluginsDir r) moduleName = None" by auto
      have w: "Warn ''Failed to load module'' [(''module'', moduleName), (''error'', error_text err)]
                 \<in> set (logged ?r2)" by simp
      from Cons.IH[OF run] have
        ih: "PluginsDir r' = PluginsDir ?r2"
          "\<forall>name. modules r' name =
            (if (name, True) \<in> set entries
             then (case registers fs (PluginsDir ?r2) name of Some info \<Rightarrow> Some info
                   | None \<Rightarrow> modules ?r2 name)
             else modules ?r2 name)"
          "n' = n + length (filter (\<lambda>e. snd e \<and> registers fs (PluginsDir ?r2) (fst e) \<noteq> None) entries)"
          "\<forall>x \<in> set (logged ?r2). x \<in> set (logged r')"
          "\<forall>name. (name, True) \<in> set entries \<and> registers fs (PluginsDir ?r2) name = None \<longrightarrow>
            (\<exists>err. Warn ''Failed to load module'' [(''module'', name), (''error'', err)] \<in> set (logged r'))"
        by blast+
      have pd: "PluginsDir ?r2 = PluginsDir r" using reg by simp
      have md: "modules ?r2 = modules r" using reg none by simp
      show ?thesis
      proof (intro conjI allI impI ballI)
        show "PluginsDir r' = PluginsDir r" using ih(1) pd by simp
        show "modules r' name =
          (if (name, True) \<in> set (entry # entries)
           then (case registers fs (PluginsDir r) name of Some info \<Rightarrow> Some info | None \<Rightarrow> modules r name)
           else modules r name)" for name
          using ih(2) pd md none e True by (auto split: option.splits)
        show "n' = n + length (filter (\<lambda>e. snd e \<and> registers fs (PluginsDir r) (fst e) \<noteq> None)
                  (entry # entries))"
          using ih(3) pd none e by simp
        show "x \<in> set (logged r')" if "x \<in> set (logged r)" for x
          using that ih(4) reg by auto
        show "\<exists>err. Warn ''Failed to load module'' [(''module'', name), (''error'', err)] \<in> set (logged r')"
          if "(name, True) \<in> set (entry # entries) \<and> registers fs (PluginsDir r) name = None" for name
        proof (cases "name = moduleName")
          case True
          then show ?thesis using w ih(4) by blast
        next
          case False
          with that e have "(name, True) \<in> set entries \<and> registers fs (PluginsDir ?r2) name = None"
            using pd by auto
          with ih(5) show ?thesis by blast
        qed
      qed
    qed
  qed
qed

lemma missing_manifest_not_registered:
  "IsNotExist fs (Join (Join dir name) ''manifest.json'') \<Longrightarrow> registers fs dir name = None"
  by (simp add: registers_def loadModule_def NewPluginRegistry_def)

text \<open>
  C8. Loading the plugins directory is best-effort. Whenever the directory can be made and
  listed, \<open>LoadPlugins\<close> returns no error; every subdirectory whose module loads is
  registered under its name, every subdirectory whose module fails to load is skipped
  with a logged warning that names it, and every other entry of the module table is as
  before; the count logged at the end is the number of subdirectories that loaded. A
  subdirectory without a manifest does not load. So a scan over one subdirectory without
  a manifest and two valid ones registers exactly the two.
\<close>

theorem LoadPlugins_best_effort:
  assumes "MkdirAll fs (PluginsDir r) = None" and "ReadDir fs (PluginsDir r) = Inr entries"
  shows "fst (LoadPlugins r fs) = None \<and>
     (\<forall>name. modules (snd (LoadPlugins r fs)) name =
        (if (name, True) \<in> set entries
         then (case registers fs (PluginsDir r) name of Some info \<Rightarrow> Some info | None \<Rightarrow> modules r name)
         else modules r name)) \<and>
     (\<forall>name. (name, True) \<in> set entries \<and> registers fs (PluginsDir r) name = None \<longrightarrow>
        (\<exists>err. Warn ''Failed to load module'' [(''module'', name), (''error'', err)]
                 \<in> set (logged (snd (LoadPlugins r fs))))) \<and>
     last (logged (snd (LoadPlugins r fs))) =
       Info ''Plugins loaded successfully''
         [(''count'', format_int (int (length
            (filter (\<lambda>e. snd e \<and> registers fs (PluginsDir r) (fst e) \<noteq> None) entries))))] \<and>
     (\<forall>name. IsNotExist fs (Join (Join (PluginsDir r) name) ''manifest.json'') \<longrightarrow>
        registers fs (PluginsDir r) name = None)"
proof -
  let ?r0 = "r\<lparr>logged := logged r @ [Info ''Loading plugins'' [(''plugins_dir'', PluginsDir r)]]\<rparr>"
  obtain r1 loadedCount where le: "load_entries fs entries ?r0 0 = (r1, loadedCount)" by force
  have lp: "LoadPlugins r fs =
      (None, r1\<lparr>logged := logged r1 @
          [Info ''Plugins loaded successfully'' [(''count'', format_int (int loadedCount))]]\<rparr>)"
    using assms le by (simp add: LoadPlugins_def Let_def)
  have r0: "PluginsDir ?r0 = PluginsDir r" "modules ?r0 = modules r" by simp_all
  from load_entries_registers[OF le, unfolded r0] have
    f: "\<forall>name. modules r1 name =
          (if (name, True) \<in> set entries
           then (case registers fs (PluginsDir r) name of Some info \<Rightarrow> Some info | None \<Rightarrow> modules r name)
           else modules r name)"
       "loadedCount = length (filter (\<lambda>e. snd e \<and> registers fs (PluginsDir r) (fst e) \<noteq> None) entries)"
       "\<forall>name. (name, True) \<in> set entries \<and> registers fs (PluginsDir r) name = None \<longrightarrow>
          (\<exists>err. Warn ''Failed to load module'' [(''module'', name), (''error'', err)] \<in> set (logged r1))"
    by auto
  show ?thesis
    unfolding lp using f missing_manifest_not_registered by auto
qed

lemma example_registers:
  "registers example_fs ''/plugins'' ''a'' =
     Some \<lparr>Manifest = \<lparr>Name = ''youtube'', Version = ''1.0.0'', Description = ''downloads'',
                        Commands = [''download'', ''info''], Dependencies = [''yt-dlp''],
                        Author = [], License = []\<rparr>,
           Path = ''/plugins/a'', LoadedAt = 42, Signature = []\<rparr>"
  "registers example_fs ''/plugins'' ''b'' =
     Some \<lparr>Manifest = \<lparr>Name = ''youtube'', Version = ''1.0.0'', Description = ''downloads'',
                        Commands = [''download'', ''info''], Dependencies = [''yt-dlp''],
                        Author = [], License = []\<rparr>,
           Path = ''/plugins/b'', LoadedAt = 42, Signature = []\<rparr>"
  "registers example_fs ''/plugins'' ''bad'' = None"
  by (simp_all add: registers_def loadModule_def NewPluginRegistry_def Join_def IsNotExist_def
        example_fs_def readManifest_def ReadFile_def Unmarshal_def example_manifest_def
        ModuleManifest_member_def zero_ModuleManifest_def validateManifest_def validateModule_def
        validatePythonSyntax_def checkDependency_def)

theorem LoadPlugins_best_effort_witness:
  "fst (LoadPlugins (NewPluginRegistry ''/plugins'') example_fs) = None \<and>
   dom (modules (snd (LoadPlugins (NewPluginRegistry ''/plugins'') example_fs))) = {''a'', ''b''} \<and>
   (\<exists>err. Warn ''Failed to load module'' [(''module'', ''bad''), (''error'', err)]
       \<in> set (logged (snd (LoadPlugins (NewPluginRegistry ''/plugins'') example_fs))))"
proof -
  have pd: "PluginsDir (NewPluginRegistry ''/plugins'') = ''/plugins''"
    and em: "modules (NewPluginRegistry ''/plugins'') = Map.empty"
    by (simp_all add: NewPluginRegistry_def)
  have mk: "MkdirAll example_fs (PluginsDir (NewPluginRegistry ''/plugins'')) = None"
    by (simp add: example_fs_def)
  have rd: "ReadDir example_fs (PluginsDir (NewPluginRegistry ''/plugins'')) =
      Inr [(''README.md'', False), (''a'', True), (''b'', True), (''bad'', True)]"
    by (simp add: example_fs_def)
  note t = LoadPlugins_best_effort[OF mk rd, unfolded pd em]
  from t have ok: "fst (LoadPlugins (NewPluginRegistry ''/plugins'') example_fs) = None"
    by blast
  from t have m: "\<And>name. modules (snd (LoadPlugins (NewPluginRegistry ''/plugins'') example_fs)) name =
        (if (name, True) \<in> set [(''README.md'', False), (''a'', True), (''b'', True), (''bad'', True)]
         then (case registers example_fs ''/plugins'' name of Some info \<Rightarrow> Some info | None \<Rightarrow> None)
         else None)"
    by blast
  have d: "dom (modules (snd (LoadPlugins (NewPluginRegistry ''/plugins'') example_fs))) = {''a'', ''b''}"
    unfolding dom_def m
    by (auto simp: example_registers split: option.splits if_splits)
  from t have "(''bad'', True) \<in> set [(''README.md'', False), (''a'', True), (''b'', True), (''bad'', True)]
      \<and> registers example_fs ''/plugins'' ''bad'' = None \<longrightarrow>
      (\<exists>err. Warn ''Failed to load module'' [(''module'', ''bad''), (''error'', err)]
       \<in> set (logged (snd (LoadPlugins (NewPluginRegistry ''/plugins'') example_fs))))"
    by blast
  then have w: "\<exists>err. Warn ''Failed to load module'' [(''module'', ''bad''), (''error'', err)]
       \<in> set (logged (snd (LoadPlugins (NewPluginRegistry ''/plugins'') example_fs)))"
    by (simp add: example_registers)
  from ok d w show ?thesis by blast
qed

section \<open>Encoding and decoding\<close>

lemma sorted_members_id:
  assumes "sorted (map fst xs)" "distinct (map fst xs)"
  shows "sorted_members xs = xs"
proof -
  have "map (\<lambda>kv. (fst kv, the (map_of xs (fst kv)))) xs = xs"
  proof (rule map_idI)
    fix kv assume "kv \<in> set xs"
    then have "map_of xs (fst kv) = Some (snd kv)"
      using assms(2) by (simp add: map_of_eq_Some_iff)
    then show "(fst kv, the (map_of xs (fst kv))) = kv" by simp
  qed
  moreover have "sort (remdups (map fst xs)) = map fst xs"
    using assms by (simp add: distinct_remdups_id sort_key_id_if_sorted)
  ultimately show ?thesis
    by (simp add: sorted_members_def comp_def)
qed

lemma sorted_members_rev:
  assumes "distinct (map fst xs)"
  shows "sorted_members (rev xs) = sorted_members xs"
proof -
  have "map_of (rev xs) = map_of xs"
    using assms by (intro map_of_inject_set[THEN iffD2]) (simp_all add: rev_map[symmetric])
  moreover have "sort (remdups (map fst (rev xs))) = sort (remdups (map fst xs))"
    by (intro sorted_distinct_set_unique) simp_all
  ultimately show ?thesis
    by (simp add: sorted_members_def)
qed

lemma marshal_float_round_trip:
  "decode_any (marshal_float (Finite r)) = GFloat (Finite r) \<and>
   numbers_in_range (marshal_float (Finite r)) \<and>
   float64_of_literal (marshal_float (Finite r)) = Some (Finite r)"
proof (cases "r = of_int \<lfloor>r\<rfloor> \<and> \<bar>r\<bar> < 10 ^ 21")
  case True
  then have "\<bar>of_int \<lfloor>r\<rfloor> :: rat\<bar> < 10 ^ 21" by simp
  then have "\<bar>\<lfloor>r\<rfloor>\<bar> < 10 ^ 21"
    by (metis (no_types) of_int_abs of_int_less_iff of_int_numeral of_int_power)
  moreover have "(10::int) ^ 21 < 2 ^ 1024 - 2 ^ 970" by simp
  ultimately have "\<bar>\<lfloor>r\<rfloor>\<bar> < 2 ^ 1024 - 2 ^ 970" by linarith
  with True show ?thesis
    by (simp add: marshal_float_def float64_of_literal_def)
next
  case False
  then show ?thesis
    by (auto simp: marshal_float_def float64_of_literal_def)
qed

lemma any_round_trip:
  "json_native v \<Longrightarrow> decode_any (marshal_any v) = v \<and> numbers_in_range (marshal_any v)"
proof (induction v)
  case (GFloat f)
  then obtain r where "f = Finite r" by (cases f) simp_all
  then show ?case using marshal_float_round_trip[of r] by simp
next
  case (GSlice xs)
  then have "\<forall>x \<in> set xs. decode_any (marshal_any x) = x \<and> numbers_in_range (marshal_any x)"
    by (auto simp: list_all_iff)
  then show ?case
    by (auto simp: list_all_iff intro: map_idI)
next
  case (GMap kvs)
  then have el: "\<forall>kv \<in> set kvs. decode_any (marshal_any (snd kv)) = snd kv \<and>
      numbers_in_range (marshal_any (snd kv))"
    and srt: "sorted (map fst kvs)" and dst: "distinct (map fst kvs)"
    by (auto simp: list_all_iff pred_prod_beta snds.simps)
  have keys: "map fst (map (map_prod id marshal_any) kvs) = map fst kvs"
    by (simp add: comp_def)
  have m: "sorted_members (map (map_prod id marshal_any) kvs) = map (map_prod id marshal_any) kvs"
    by (rule sorted_members_id) (simp_all only: keys srt dst)
  have bk: "map (map_prod id decode_any) (map (map_prod id marshal_any) kvs) = kvs"
    using el by (auto simp: map_prod_def split_beta intro!: map_idI)
  have "sorted_members (rev kvs) = kvs"
    using sorted_members_rev[OF dst] sorted_members_id[OF srt dst] by simp
  then show ?case
    using m bk el by (simp add: list_all_iff pred_prod_beta)
qed simp_all

lemma native_supported: "json_native v \<Longrightarrow> marshal_supported v"
  by (induction v) (auto simp: list_all_iff pred_prod_beta snds.simps split: float64.splits)

lemma map_round_trip:
  assumes "json_native_map m"
  shows "decode_map (marshal_map m) None = Inr m \<and>
         (case m of None \<Rightarrow> True | Some kvs \<Rightarrow> marshal_supported (GMap kvs))"
proof (cases m)
  case None
  then show ?thesis by (simp add: marshal_map_def)
next
  case (Some kvs)
  with assms have n: "json_native (GMap kvs)" by (simp add: json_native_map_def)
  from any_round_trip[OF n] have
    d: "decode_any (marshal_any (GMap kvs)) = GMap kvs" and
    r: "numbers_in_range (marshal_any (GMap kvs))" by blast+
  have s: "marshal_supported (GMap kvs)"
    using n by (rule native_supported)
  from d r s Some show ?thesis
    by (simp add: marshal_map_def)
qed

lemma int64_round_trip: "decode_int64 (JInt (sint (x :: 64 word))) cur = Inr x"
proof -
  have "- (2 ^ 63) \<le> sint x" "sint x < 2 ^ 63"
    using sint_ge[of x] sint_lt[of x] by simp_all
  then show ?thesis by simp
qed

lemma ProgressEvent_members_round_trip:
  assumes "Percentage p = Finite r"
  shows "decode_members ProgressEvent_member
           [(''stage'', JString (Stage p)),
            (''current'', JInt (sint (Current p))),
            (''total'', JInt (sint (Total p))),
            (''percentage'', marshal_float (Percentage p)),
            (''message'', JString (Message p)),
            (''timestamp'', JStamp s (Timestamp p))] q = Inr p"
proof -
  have f: "decode_float64 (marshal_float (Finite r)) cur = Inr (Finite r)" for cur
    using marshal_float_round_trip[of r]
    by (cases "marshal_float (Finite r)") (auto simp: marshal_float_def split: if_splits)
  show ?thesis
    using assms
    by (simp add: ProgressEvent_member_def int64_round_trip f del: decode_int64.simps)
qed

lemma ProgressEvent_round_trip:
  assumes "encodable p"
  shows "\<exists>j. ProgressEvent_ToJSON p = Inr j \<and> ProgressEventFromJSON (Document j) = Inr p"
proof -
  from assms obtain r where r: "Percentage p = Finite r"
    by (auto simp: encodable_def split: float64.splits)
  from assms have t: "Time_MarshalJSON (Timestamp p) = Inr (JStamp (RFC3339Nano (Timestamp p)) (Timestamp p))"
    by (simp add: encodable_def Time_MarshalJSON_def)
  show ?thesis
    using r t ProgressEvent_members_round_trip[OF r]
    by (simp add: ProgressEvent_ToJSON_def ProgressEventFromJSON_def Unmarshal_def)
qed

lemma ModuleRequest_round_trip:
  assumes "json_native_map (Args req)"
  shows "\<exists>j. ModuleRequest_ToJSON req = Inr j \<and> ModuleRequestFromJSON (Document j) = Inr req"
  using map_round_trip[OF assms]
  by (simp add: ModuleRequest_ToJSON_def ModuleRequestFromJSON_def Unmarshal_def
        ModuleRequest_member_def zero_ModuleRequest_def int64_round_trip
      del: decode_int64.simps)

lemma ModuleResponse_round_trip:
  assumes "json_native_map (Data resp)"
    and "case Progress resp of None \<Rightarrow> True | Some p \<Rightarrow> encodable p"
  shows "\<exists>j. ModuleResponse_ToJSON resp = Inr j \<and> ModuleResponseFromJSON (Document j) = Inr resp"
proof (cases "Progress resp")
  case None
  then show ?thesis
    using map_round_trip[OF assms(1)]
    by (simp add: ModuleResponse_ToJSON_def ModuleResponseFromJSON_def Unmarshal_def
        ModuleResponse_member_def zero_ModuleResponse_def)
next
  case (Some p)
  with assms(2) have e: "encodable p" by simp
  then obtain r where r: "Percentage p = Finite r"
    by (auto simp: encodable_def split: float64.splits)
  from e have t: "Time_MarshalJSON (Timestamp p) = Inr (JStamp (RFC3339Nano (Timestamp p)) (Timestamp p))"
    by (simp add: encodable_def Time_MarshalJSON_def)
  show ?thesis
    using Some r t map_round_trip[OF assms(1)] ProgressEvent_members_round_trip[OF r]
    by (simp add: ModuleResponse_ToJSON_def ModuleResponseFromJSON_def Unmarshal_def
        ModuleResponse_member_def zero_ModuleResponse_def ProgressEvent_ToJSON_def)
qed

text \<open>
  C9, as amended. Encoding with \<open>ToJSON\<close> and decoding the written document with the
  matching \<open>FromJSON\<close> gives back the value, for every request and response whose \<open>args\<close>
  or \<open>data\<close> hold only values of the kinds the decoder itself produces (nil, bool, finite
  float64, string, slices and maps of these), and for every progress event (also the one
  inside a response) with a finite percentage and a timestamp in the years 0 to 9999;
  \<open>ToJSON\<close> does not fail on them. Strings are well-formed UTF-8 text and a timestamp is
  its instant, as everywhere in this model.
\<close>

theorem json_round_trip:
  "(json_native_map (Args req) \<longrightarrow>
      (\<exists>j. ModuleRequest_ToJSON req = Inr j \<and> ModuleRequestFromJSON (Document j) = Inr req)) \<and>
   (json_native_map (Data resp) \<and> (case Progress resp of None \<Rightarrow> True | Some p \<Rightarrow> encodable p) \<longrightarrow>
      (\<exists>j. ModuleResponse_ToJSON resp = Inr j \<and> ModuleResponseFromJSON (Document j) = Inr resp)) \<and>
   (encodable ev \<longrightarrow>
      (\<exists>j. ProgressEvent_ToJSON ev = Inr j \<and> ProgressEventFromJSON (Document j) = Inr ev))"
  using ModuleRequest_round_trip ModuleResponse_round_trip ProgressEvent_round_trip by blast

lemma example_year: "year_of 1700000000000000000 = 2023"
  by code_simp

lemma example_event_encodable: "encodable example_event"
  by (simp add: encodable_def example_event_def example_year)

theorem json_round_trip_witness:
  "(\<exists>j. ModuleRequest_ToJSON example_request = Inr j \<and>
        ModuleRequestFromJSON (Document j) = Inr example_request) \<and>
   (\<exists>j. ModuleResponse_ToJSON example_result = Inr j \<and>
        ModuleResponseFromJSON (Document j) = Inr example_result) \<and>
   (\<exists>j. ProgressEvent_ToJSON example_event = Inr j \<and>
        ProgressEventFromJSON (Document j) = Inr example_event)"
proof -
  have a: "json_native_map (Args example_request)"
    by (simp add: json_native_map_def example_request_def)
  have d: "json_native_map (Data example_result) \<and>
      (case Progress example_result of None \<Rightarrow> True | Some p \<Rightarrow> encodable p)"
    by (simp add: json_native_map_def example_result_def example_event_encodable)
  from json_round_trip[of example_request example_result example_event] a d example_event_encodable
  show ?thesis by blast
qed

text \<open>
  C9 as stated fails: a valid request with an int among its arguments is written with
  the number 720 and read back with the \<open>float64\<close> 720 in its place, since the decoder
  makes a \<open>float64\<close> of every number it puts into an \<open>interface{}\<close>. The request read
  back differs from the one written.
\<close>

theorem int_argument_comes_back_as_float:
  "ModuleRequest_Validate int_request = Inr int_request \<and>
   ModuleRequest_ToJSON int_request =
     Inr (JObject
       [(''command'', JString ''download''), (''args'', JObject [(''quality'', JInt 720)]),
        (''auth_token'', JString ''a''), (''device_token'', JString ''d''), (''timeout'', JInt 300)]) \<and>
   ModuleRequestFromJSON (Document (JObject
       [(''command'', JString ''download''), (''args'', JObject [(''quality'', JInt 720)]),
        (''auth_token'', JString ''a''), (''device_token'', JString ''d''), (''timeout'', JInt 300)])) =
     Inr (int_request\<lparr>Args := Some [(''quality'', GFloat (Finite 720))]\<rparr>) \<and>
   int_request\<lparr>Args := Some [(''quality'', GFloat (Finite 720))]\<rparr> \<noteq> int_request"
proof (intro conjI)
  show "ModuleRequest_Validate int_request = Inr int_request"
    by (simp add: int_request_def example_request_def ModuleRequest_Validate_def word_sle_eq)
  show "ModuleRequest_ToJSON int_request =
     Inr (JObject
       [(''command'', JString ''download''), (''args'', JObject [(''quality'', JInt 720)]),
        (''auth_token'', JString ''a''), (''device_token'', JString ''d''), (''timeout'', JInt 300)])"
    by (simp add: int_request_def example_request_def ModuleRequest_ToJSON_def marshal_map_def
          sorted_members_def)
  show "ModuleRequestFromJSON (Document (JObject
       [(''command'', JString ''download''), (''args'', JObject [(''quality'', JInt 720)]),
        (''auth_token'', JString ''a''), (''device_token'', JString ''d''), (''timeout'', JInt 300)])) =
     Inr (int_request\<lparr>Args := Some [(''quality'', GFloat (Finite 720))]\<rparr>)"
    by (simp add: int_request_def example_request_def ModuleRequestFromJSON_def Unmarshal_def
          ModuleRequest_member_def zero_ModuleRequest_def sorted_members_def float64_of_literal_def)
  show "int_request\<lparr>Args := Some [(''quality'', GFloat (Finite 720))]\<rparr> \<noteq> int_request"
    by (simp add: int_request_def example_request_def)
qed

end
